theory Spec2Isabelle
  imports Complex_Main "HOL-Library.Log_Nat" "HOL-Library.Word"
begin

section \<open>Python strings\<close>

text \<open>
  A Python \<^verbatim>\<open>str\<close> is a sequence of Unicode code points. A code point is a natural
  number; \<open>str\<close> turns an ASCII literal into such a sequence.
\<close>

type_synonym codepoint = nat
type_synonym pystr = "codepoint list"

definition str :: "string \<Rightarrow> pystr" where
  "str s = map of_char s"

text \<open>
  The code points on which \<^verbatim>\<open>str.split()\<close> (no separator given) splits: the ones
  for which \<^verbatim>\<open>str.isspace\<close> holds. They are TAB, LF, VT, FF, CR, the four
  separators FS, GS, RS, US, the space, NEL, the no-break space, the Ogham space mark,
  U+2000 to U+200A, the line and paragraph separators, the narrow no-break space, the
  medium mathematical space and the ideographic space.
\<close>

definition isspace :: "codepoint \<Rightarrow> bool" where
  "isspace c \<longleftrightarrow>
     (9 \<le> c \<and> c \<le> 13) \<or> (28 \<le> c \<and> c \<le> 32) \<or> c = 133 \<or> c = 160 \<or> c = 5760 \<or>
     (8192 \<le> c \<and> c \<le> 8202) \<or> c = 8232 \<or> c = 8233 \<or> c = 8239 \<or> c = 8287 \<or>
     c = 12288"

text \<open>
  \<^verbatim>\<open>text.split()\<close>: scan the text once; \<open>cur\<close> holds the characters of the word
  being read, newest first. A run of whitespace ends the word; empty words are never
  produced.
\<close>

fun split_scan :: "pystr \<Rightarrow> pystr \<Rightarrow> pystr list" where
  "split_scan cur [] = (if cur = [] then [] else [rev cur])"
| "split_scan cur (c # cs) =
     (if isspace c then (if cur = [] then split_scan [] cs else rev cur # split_scan [] cs)
      else split_scan (c # cur) cs)"

definition split :: "pystr \<Rightarrow> pystr list" where
  "split text = split_scan [] text"

text \<open>\<^verbatim>\<open>sep.join(parts)\<close>.\<close>

fun join :: "pystr \<Rightarrow> pystr list \<Rightarrow> pystr" where
  "join sep [] = []"
| "join sep [x] = x"
| "join sep (x # y # ys) = x @ sep @ join sep (y # ys)"

definition space :: pystr where
  "space = [32]"

section \<open>Exceptions\<close>

text \<open>
  Every raise of the modelled code is a value. \<open>HTTPException\<close> carries the status code
  and the detail; \<open>BackendError\<close> stands for whatever the model runtime raises (loading
  the model, tokenising, decoding).
\<close>

datatype exc =
    ValueError
  | ZeroDivisionError
  | OverflowError
  | HTTPException nat string
  | BackendError string

section \<open>chunk\_text\<close>

text \<open>
  \<^verbatim>\<open>
  words = text.split()
  chunks = []
  for i in range(0, len(words), max_chunk_size):
      chunk = " ".join(words[i:i + max_chunk_size])
      chunks.append(chunk)
  return chunks
  \<close>
  The loop over \<^verbatim>\<open>range(0, len(words), step)\<close> for a positive step: \<open>i\<close> is the
  loop variable, \<open>chunks\<close> the list built so far. (\<open>chunk_text\<close> enters the loop
  with a positive step only; the test \<open>0 < step\<close> is what lets the recursion end.)
\<close>

function chunk_loop :: "pystr list \<Rightarrow> nat \<Rightarrow> nat \<Rightarrow> pystr list \<Rightarrow> pystr list" where
  "chunk_loop words step i chunks =
     (if 0 < step \<and> i < length words
      then chunk_loop words step (i + step) (chunks @ [join space (take step (drop i words))])
      else chunks)"
  by pat_completeness auto
termination
  by (relation "measure (\<lambda>(words, step, i, chunks). length words - i)") auto

declare chunk_loop.simps [simp del]

text \<open>
  \<^verbatim>\<open>range\<close> raises ValueError for a step of zero and is empty for a negative step
  (the start 0 is never above the stop \<^verbatim>\<open>len(words)\<close>).
\<close>

definition chunk_text :: "pystr \<Rightarrow> int \<Rightarrow> exc + pystr list" where
  "chunk_text text max_chunk_size =
     (let words = split text in
      if max_chunk_size = 0 then Inl ValueError
      else if max_chunk_size < 0 then Inr []
      else Inr (chunk_loop words (nat max_chunk_size) 0 []))"

section \<open>Numbers\<close>

text \<open>
  A Python float is an IEEE 754 double: a sign, 53 significant bits and a binary exponent.
  A double is modelled by the rational number it holds, and an operation that yields a
  float by the exact result rounded to the nearest double, a tie going to the double
  whose last bit is 0.

  \<open>round_half_even\<close> is rounding to the nearest integer, a tie going to the even one.
\<close>

definition round_half_even :: "rat \<Rightarrow> int" where
  "round_half_even x =
     (let f = \<lfloor>x\<rfloor>; d = x - of_int f in
      if d < 1 / 2 then f
      else if 1 / 2 < d then f + 1
      else if even f then f else f + 1)"

text \<open>
  The binary exponent of a positive rational: the \<open>e\<close> with \<open>2 ^ e \<le> q < 2 ^ (e + 1)\<close>.
\<close>

definition ilog2 :: "rat \<Rightarrow> int" where
  "ilog2 q = (if 1 \<le> q then bitlen \<lfloor>q\<rfloor> - 1 else - bitlen (\<lceil>1 / q\<rceil> - 1))"

text \<open>
  The double nearest to \<open>q\<close>: \<open>q\<close> rounded to 53 significant bits. (The limits of
  the exponent of a double play no part here: the floats of this program are a duration
  in seconds, quotients of two list lengths, which are below \<open>2 ^ 63\<close>, and their
  roundings to two or three decimals, all far inside the range of the normal doubles.)
\<close>

definition nearest_double :: "rat \<Rightarrow> rat" where
  "nearest_double q =
     (if q = 0 then 0
      else let u = 2 powi (ilog2 \<bar>q\<bar> - 52)
           in sgn q * of_int (round_half_even (\<bar>q\<bar> / u)) * u)"

text \<open>
  \<^verbatim>\<open>round(x, ndigits)\<close> for \<open>ndigits \<ge> 0\<close>: the value that \<open>x\<close> holds is rounded
  to \<open>ndigits\<close> decimals, a tie going to the even last digit, and the result is the double
  nearest to that decimal number. (On the integer 0 it is 0.)
\<close>

definition py_round :: "rat \<Rightarrow> nat \<Rightarrow> rat" where
  "py_round x ndigits =
     nearest_double (of_int (round_half_even (x * 10 ^ ndigits)) / 10 ^ ndigits)"

text \<open>
  \<^verbatim>\<open>a / b\<close> on two lengths: true division, which raises on a zero divisor and
  otherwise yields the double nearest to the quotient.
\<close>

definition py_truediv :: "nat \<Rightarrow> nat \<Rightarrow> exc + rat" where
  "py_truediv a b =
     (if b = 0 then Inl ZeroDivisionError else Inr (nearest_double (of_nat a / of_nat b)))"

section \<open>The generation collaborator\<close>

text \<open>
  What \<^verbatim>\<open>generate_summary\<close> hands to the model runtime: the text and the two length
  targets. (The beam-search settings are constants of the call; \<^verbatim>\<open>do_sample\<close> is
  never passed by a caller and the body ignores it.)
\<close>

record gen_call =
  call_text :: pystr
  call_max_length :: int
  call_min_length :: int

text \<open>
  The runtime is a parameter of the model. It stands for \<^verbatim>\<open>load_model()\<close>, the
  tokenizer, \<^verbatim>\<open>model.generate\<close>, the decoding and the two readings of the clock: from
  its own state \<open>'w\<close> (the cached model, the device, the clock) and a call it either
  raises (\<^verbatim>\<open>load_model\<close> raises an \<^verbatim>\<open>HTTPException\<close> with status 500) or yields
  the decoded summary together with the seconds measured around tokenising, generating
  and decoding (a float, given by its value).
\<close>

type_synonym 'w backend = "'w \<Rightarrow> gen_call \<Rightarrow> (exc + pystr \<times> rat) \<times> 'w"

text \<open>
  The state threaded through the service: the calls of \<open>generate_summary\<close> made so far,
  oldest first, and the runtime's state. The log is not in the source; it is what the
  properties about the number and the order of the calls speak of.
\<close>

record 'w state =
  calls :: "gen_call list"
  world :: 'w

text \<open>The dictionary \<^verbatim>\<open>generate_summary\<close> returns.\<close>

record summary_result =
  summary_text :: pystr
  generation_time :: rat
  original_length :: nat
  summary_length :: nat
  compression_ratio :: rat

text \<open>
  \<^verbatim>\<open>
  original_words = len(text.split())
  summary_words = len(summary_text.split())
  compression_ratio = summary_words / original_words if original_words > 0 else 0
  return {"summary_text": summary_text,
          "generation_time": round(generation_time, 2),
          "original_length": original_words,
          "summary_length": summary_words,
          "compression_ratio": round(compression_ratio, 3)}
  \<close>
\<close>

definition generate_summary ::
  "'w backend \<Rightarrow> pystr \<Rightarrow> int \<Rightarrow> int \<Rightarrow> 'w state \<Rightarrow> (exc + summary_result) \<times> 'w state" where
  "generate_summary bart text max_length min_length s =
     (let c = \<lparr>call_text = text, call_max_length = max_length, call_min_length = min_length\<rparr>;
          s1 = s\<lparr>calls := calls s @ [c]\<rparr>
      in case bart (world s1) c of
           (Inl e, w) \<Rightarrow> (Inl e, s1\<lparr>world := w\<rparr>)
         | (Inr (decoded, elapsed), w) \<Rightarrow>
             (let original_words = length (split text);
                  summary_words = length (split decoded)
              in case (if 0 < original_words then py_truediv summary_words original_words
                       else Inr 0) of
                   Inl e \<Rightarrow> (Inl e, s1\<lparr>world := w\<rparr>)
                 | Inr ratio \<Rightarrow>
                     (Inr \<lparr>summary_text = decoded,
                           generation_time = py_round elapsed 2,
                           original_length = original_words,
                           summary_length = summary_words,
                           compression_ratio = py_round ratio 3\<rparr>,
                      s1\<lparr>world := w\<rparr>)))"

section \<open>summarize\_long\_text\<close>

text \<open>
  The loop over the chunks:
  \<^verbatim>\<open>
  for i, chunk in enumerate(chunks):
      result = generate_summary(chunk, max_length=200, min_length=80)
      chunk_summaries.append(result["summary_text"])
  \<close>
  An exception of a call leaves the loop and the function.
\<close>

fun summarize_chunks ::
  "'w backend \<Rightarrow> pystr list \<Rightarrow> pystr list \<Rightarrow> 'w state \<Rightarrow> (exc + pystr list) \<times> 'w state" where
  "summarize_chunks bart [] chunk_summaries s = (Inr chunk_summaries, s)"
| "summarize_chunks bart (chunk # chunks) chunk_summaries s =
     (case generate_summary bart chunk 200 80 s of
        (Inl e, s') \<Rightarrow> (Inl e, s')
      | (Inr result, s') \<Rightarrow>
          summarize_chunks bart chunks (chunk_summaries @ [summary_text result]) s')"

definition summarize_long_text ::
  "'w backend \<Rightarrow> pystr \<Rightarrow> int \<Rightarrow> int \<Rightarrow> 'w state \<Rightarrow> (exc + summary_result) \<times> 'w state" where
  "summarize_long_text bart text max_length min_length s =
     (let word_count = length (split text) in
      if word_count \<le> 1000 then generate_summary bart text max_length min_length s
      else
        case chunk_text text 800 of
          Inl e \<Rightarrow> (Inl e, s)
        | Inr chunks \<Rightarrow>
            (case summarize_chunks bart chunks [] s of
               (Inl e, s') \<Rightarrow> (Inl e, s')
             | (Inr chunk_summaries, s') \<Rightarrow>
                 (let combined_summary = join space chunk_summaries in
                  generate_summary bart combined_summary max_length min_length s')))"

section \<open>create\_summary\<close>

text \<open>
  The database is the SQLite file of the default \<^verbatim>\<open>DATABASE_URL\<close>. An integer column
  holds a signed 64-bit integer, read through \<open>sint\<close>; the driver raises
  \<^verbatim>\<open>OverflowError\<close> when a statement is given a Python integer outside that range.
\<close>

definition sqlite_integer :: "int \<Rightarrow> bool" where
  "sqlite_integer i \<longleftrightarrow> - (2 ^ 63) \<le> i \<and> i < 2 ^ 63"

text \<open>
  The two tables the function touches, with the columns it reads or writes. The primary
  key and the timestamps of a new summary row are the database's to assign.
\<close>

record Document =
  doc_id :: "64 word"
  doc_owner_id :: "64 word"
  doc_extracted_text :: "pystr option"

record Summary =
  row_document_id :: "64 word"
  row_owner_id :: "64 word"
  row_summary_text :: pystr
  row_word_count :: "64 word"
  row_compression_ratio :: rat
  row_generation_time :: rat
  row_max_length :: "64 word"
  row_min_length :: "64 word"

record database =
  documents :: "Document list"
  summaries :: "Summary list"

text \<open>
  \<^verbatim>\<open>db.query(Document).filter(Document.id == document_id).first()\<close>: the first row
  with that id or \<^verbatim>\<open>None\<close>, when the id can be given to the database at all.
\<close>

definition first_document :: "database \<Rightarrow> int \<Rightarrow> exc + Document option" where
  "first_document db document_id =
     (if sqlite_integer document_id
      then Inr (find (\<lambda>d. sint (doc_id d) = document_id) (documents db))
      else Inl OverflowError)"

text \<open>
  \<^verbatim>\<open>db.add(summary); db.commit()\<close>: the row is inserted when each integer of it can
  be stored.
\<close>

definition add_summary ::
  "database \<Rightarrow> int \<Rightarrow> int \<Rightarrow> summary_result \<Rightarrow> int \<Rightarrow> int \<Rightarrow> exc + Summary \<times> database" where
  "add_summary db document_id user_id result max_length min_length =
     (if sqlite_integer document_id \<and> sqlite_integer user_id
         \<and> sqlite_integer (int (summary_length result))
         \<and> sqlite_integer max_length \<and> sqlite_integer min_length
      then
        (let summary = \<lparr>row_document_id = word_of_int document_id,
                         row_owner_id = word_of_int user_id,
                         row_summary_text = summary_text result,
                         row_word_count = word_of_nat (summary_length result),
                         row_compression_ratio = compression_ratio result,
                         row_generation_time = generation_time result,
                         row_max_length = word_of_int max_length,
                         row_min_length = word_of_int min_length\<rparr>
         in Inr (summary, db\<lparr>summaries := summaries db @ [summary]\<rparr>))
      else Inl OverflowError)"

text \<open>
  \<^verbatim>\<open>not document\<close> holds for \<^verbatim>\<open>None\<close> only;
  \<^verbatim>\<open>not document.extracted_text\<close> holds for \<^verbatim>\<open>None\<close> and for the empty
  string.
\<close>

definition create_summary ::
  "'w backend \<Rightarrow> database \<Rightarrow> int \<Rightarrow> int \<Rightarrow> int \<Rightarrow> int \<Rightarrow> 'w state
     \<Rightarrow> (exc + Summary) \<times> database \<times> 'w state" where
  "create_summary bart db document_id user_id max_length min_length s =
     (case first_document db document_id of
        Inl e \<Rightarrow> (Inl e, db, s)
      | Inr None \<Rightarrow> (Inl (HTTPException 404 ''Document not found''), db, s)
      | Inr (Some document) \<Rightarrow>
          if sint (doc_owner_id document) \<noteq> user_id
          then (Inl (HTTPException 403 ''Access denied''), db, s)
          else if doc_extracted_text document = None \<or> doc_extracted_text document = Some []
          then (Inl (HTTPException 400 ''Document has no extracted text''), db, s)
          else
            (case summarize_long_text bart (the (doc_extracted_text document))
                    max_length min_length s of
               (Inl e, s') \<Rightarrow> (Inl e, db, s')
             | (Inr result, s') \<Rightarrow>
                 (case add_summary db document_id user_id result max_length min_length of
                    Inl e \<Rightarrow> (Inl e, db, s')
                  | Inr (summary, db') \<Rightarrow> (Inr summary, db', s'))))"

text \<open>
  The request schema \<^verbatim>\<open>SummaryCreate\<close>:
  \<^verbatim>\<open>max_length: int = Field(default=400, ge=100, le=1024)\<close> and
  \<^verbatim>\<open>min_length: int = Field(default=150, ge=50, le=400)\<close>. Each field is checked on
  its own.
\<close>

definition SummaryCreate_valid :: "int \<Rightarrow> int \<Rightarrow> bool" where
  "SummaryCreate_valid max_length min_length \<longleftrightarrow>
     100 \<le> max_length \<and> max_length \<le> 1024 \<and> 50 \<le> min_length \<and> min_length \<le> 400"

section \<open>Vocabulary of the properties\<close>

text \<open>A word: not empty, no whitespace in it.\<close>

definition is_word :: "pystr \<Rightarrow> bool" where
  "is_word w \<longleftrightarrow> w \<noteq> [] \<and> list_all (\<lambda>c. \<not> isspace c) w"

text \<open>The number of chunks of a text of \<open>n\<close> words: the ceiling of \<open>n / 800\<close>.\<close>

definition chunk_count :: "nat \<Rightarrow> nat" where
  "chunk_count n = (n + 799) div 800"

text \<open>The calls a run added to the log.\<close>

definition new_calls :: "'w state \<Rightarrow> 'w state \<Rightarrow> gen_call list" where
  "new_calls s s' = drop (length (calls s)) (calls s')"

text \<open>The call of the loop on one chunk.\<close>

definition chunk_call :: "pystr \<Rightarrow> gen_call" where
  "chunk_call chunk = \<lparr>call_text = chunk, call_max_length = 200, call_min_length = 80\<rparr>"


text \<open>
  A stand-in for the model runtime in the examples: its summary is the first \<open>k\<close> words
  of the text, and it reports 1.25 seconds. It has no state.
\<close>

definition head_backend :: "nat \<Rightarrow> unit backend" where
  "head_backend k w c = (Inr (join space (take k (split (call_text c))), 5 / 4), w)"

text \<open>A runtime that fails to load the model.\<close>

definition failing_backend :: "unit backend" where
  "failing_backend w c = (Inl (HTTPException 500 ''Failed to load AI model''), w)"

text \<open>The state before any call.\<close>

definition s0 :: "unit state" where
  "s0 = \<lparr>calls = [], world = ()\<rparr>"

text \<open>
  A text of 1601 words, and a chunk of 800 words: the chunks of the text are two of these
  and a last one of a single word.
\<close>

definition long_text :: pystr where
  "long_text = join space (replicate 1601 (str ''w''))"

definition full_chunk :: pystr where
  "full_chunk = join space (replicate 800 (str ''w''))"

text \<open>
  A database for the examples: user 7 owns three documents, one with text, one whose text
  is the empty string and one without extracted text.
\<close>

definition db0 :: database where
  "db0 = \<lparr>documents =
            [\<lparr>doc_id = 1, doc_owner_id = 7, doc_extracted_text = Some (str ''one two three'')\<rparr>,
             \<lparr>doc_id = 2, doc_owner_id = 7, doc_extracted_text = Some []\<rparr>,
             \<lparr>doc_id = 3, doc_owner_id = 7, doc_extracted_text = None\<rparr>],
          summaries = []\<rparr>"

section \<open>Splitting and joining\<close>

lemma split_scan_words:
  "list_all (\<lambda>c. \<not> isspace c) cur \<Longrightarrow> list_all is_word (split_scan cur cs)"
  by (induction cs arbitrary: cur) (auto simp: is_word_def)

lemma split_words: "list_all is_word (split text)"
  by (simp add: split_def split_scan_words)

lemma split_scan_nonspace:
  "list_all (\<lambda>c. \<not> isspace c) w \<Longrightarrow> split_scan cur (w @ rest) = split_scan (rev w @ cur) rest"
  by (induction w arbitrary: cur) auto

lemma split_scan_word_end: "is_word w \<Longrightarrow> split_scan [] w = [w]"
  using split_scan_nonspace [of w "[]" "[]"] by (simp add: is_word_def)

lemma isspace_32: "isspace 32"
  by (simp add: isspace_def)

lemma split_scan_word_space:
  "is_word w \<Longrightarrow> split_scan [] (w @ space @ rest) = w # split_scan [] rest"
  using split_scan_nonspace [of w "[]" "space @ rest"]
  by (simp add: is_word_def space_def isspace_32)

text \<open>Splitting a text that was joined from words gives the words back.\<close>

lemma split_join: "list_all is_word ws \<Longrightarrow> split (join space ws) = ws"
  unfolding split_def
proof (induction space ws rule: join.induct)
  case 1
  then show ?case by simp
next
  case (2 x)
  then show ?case by (simp add: split_scan_word_end)
next
  case (3 x y ys)
  then show ?case by (simp add: split_scan_word_space)
qed

lemma list_all_take_drop: "list_all P ws \<Longrightarrow> list_all P (take n (drop i ws))"
  by (auto simp: list_all_iff dest: in_set_takeD in_set_dropD)

lemma split_join_slice:
  "split (join space (take n (drop i (split text)))) = take n (drop i (split text))"
  by (rule split_join) (rule list_all_take_drop [OF split_words])

section \<open>Arithmetic of the chunk count\<close>

lemma ceil_div_step:
  fixes n :: nat
  assumes "0 < n" "i < len"
  shows "(len - i + n - 1) div n = Suc ((len - (i + n) + n - 1) div n)"
proof (cases "i + n \<le> len")
  case True
  define r where "r = len - (i + n) + n - 1"
  have "len - i + n - 1 = r + n"
    using True assms unfolding r_def by linarith
  then have "(len - i + n - 1) div n = (r + n) div n"
    by (simp only:)
  also have "\<dots> = Suc (r div n)"
    using assms(1) by simp
  finally show ?thesis unfolding r_def .
next
  case False
  have a: "(len - (i + n) + n - 1) div n = 0"
    using False assms by simp
  have "(len - i + n - 1) div n = 1"
  proof (rule div_nat_eqI)
    show "n * 1 \<le> len - i + n - 1" using assms by linarith
    show "len - i + n - 1 < n * Suc 1" using assms False by simp
  qed
  then show ?thesis using a by simp
qed

lemma ceil_div_covers:
  fixes n :: nat
  assumes "0 < n"
  shows "len \<le> ((len + n - 1) div n) * n"
proof -
  have "len + n - 1 = ((len + n - 1) div n) * n + (len + n - 1) mod n" by simp
  moreover have "(len + n - 1) mod n < n" using assms by simp
  ultimately show ?thesis by linarith
qed

lemma ceil_div_full:
  fixes n :: nat
  assumes "0 < n" "Suc k < (len + n - 1) div n"
  shows "Suc k * n \<le> len"
proof -
  have "Suc (Suc k) \<le> (len + n - 1) div n" using assms by simp
  then have "Suc (Suc k) * n \<le> ((len + n - 1) div n) * n"
    using mult_le_mono1 by blast
  also have "\<dots> \<le> len + n - 1" by simp
  finally show ?thesis using assms by simp
qed

section \<open>The chunks\<close>

text \<open>
  The loop, read off as a list: from position \<open>i\<close> it adds, for \<open>k = 0, 1, \<dots>\<close>, the
  slice of \<open>n\<close> words that starts at \<open>i + k * n\<close>, as long as that start is inside the
  word list.
\<close>

lemma chunk_loop_map:
  "0 < n \<Longrightarrow> chunk_loop ws n i acc =
     acc @ map (\<lambda>k. join space (take n (drop (i + k * n) ws))) [0..<(length ws - i + n - 1) div n]"
proof (induction ws n i acc rule: chunk_loop.induct)
  case (1 ws n i acc)
  show ?case
  proof (cases "i < length ws")
    case True
    let ?c = "join space (take n (drop i ws))"
    let ?m = "(length ws - (i + n) + n - 1) div n"
    let ?f = "\<lambda>k. join space (take n (drop (i + k * n) ws))"
    have m: "(length ws - i + n - 1) div n = Suc ?m"
      using ceil_div_step [OF \<open>0 < n\<close> True] .
    have shift: "map ?f [0..<Suc ?m] =
        ?c # map (\<lambda>k. join space (take n (drop (i + n + k * n) ws))) [0..<?m]"
    proof -
      have "[0..<Suc ?m] = 0 # map Suc [0..<?m]"
        by (simp only: map_Suc_upt upt_conv_Cons [of 0 "Suc ?m"] zero_less_Suc)
      then have "map ?f [0..<Suc ?m] = ?f 0 # map (\<lambda>k. ?f (Suc k)) [0..<?m]"
        by (simp only: list.map map_map comp_def)
      then show ?thesis by (simp add: add.assoc del: upt_Suc)
    qed
    have "chunk_loop ws n i acc = chunk_loop ws n (i + n) (acc @ [?c])"
      using True \<open>0 < n\<close> by (subst chunk_loop.simps) simp
    also have "\<dots> = (acc @ [?c]) @
        map (\<lambda>k. join space (take n (drop (i + n + k * n) ws))) [0..<?m]"
      using "1.IH" True \<open>0 < n\<close> by blast
    also have "\<dots> = acc @ map ?f [0..<Suc ?m]"
      by (simp only: shift append_Cons append_Nil append_assoc)
    finally show ?thesis by (simp only: m)
  next
    case False
    then have "(length ws - i + n - 1) div n = 0"
      using \<open>0 < n\<close> by simp
    moreover have "chunk_loop ws n i acc = acc"
      using False by (subst chunk_loop.simps) simp
    ultimately show ?thesis by simp
  qed
qed

lemma concat_slices:
  "concat (map (\<lambda>k. take n (drop (k * n) ws)) [0..<m]) = take (m * n) ws"
proof (induction m)
  case 0
  then show ?case by simp
next
  case (Suc m)
  have "Suc m * n = m * n + n" by simp
  then have "take (Suc m * n) ws = take (m * n) ws @ take n (drop (m * n) ws)"
    by (simp only: take_add)
  then show ?case using Suc by simp
qed

lemma chunk_text_positive:
  assumes "0 < max_chunk_size"
  shows "chunk_text text max_chunk_size =
     Inr (map (\<lambda>k. join space (take (nat max_chunk_size) (drop (k * nat max_chunk_size) (split text))))
            [0..<(length (split text) + nat max_chunk_size - 1) div nat max_chunk_size])"
proof -
  have "0 < nat max_chunk_size" using assms by simp
  from chunk_loop_map [OF this, of "split text" 0 "[]"] show ?thesis
    using assms by (simp add: chunk_text_def)
qed

section \<open>Properties of chunk\_text\<close>

text \<open>
  C2. For a positive chunk size, \<open>chunk_text\<close> returns a list of chunks, one per started
  block of \<open>max_chunk_size\<close> words. Chunk \<open>k\<close> holds, in order, exactly the words at the
  positions \<open>k * max_chunk_size\<close> up to (not including) \<open>(k + 1) * max_chunk_size\<close> of the
  text's word sequence, so the chunks are ordered and do not overlap; every chunk has at
  least one and at most \<open>max_chunk_size\<close> words, and every chunk but the last has exactly
  \<open>max_chunk_size\<close>. The word sequences of the chunks, concatenated in order, are the word
  sequence of the text.
\<close>

theorem chunk_text_lossless:
  assumes "0 < max_chunk_size"
  shows "\<exists>chunks. chunk_text text max_chunk_size = Inr chunks
     \<and> length chunks = (length (split text) + nat max_chunk_size - 1) div nat max_chunk_size
     \<and> (\<forall>k < length chunks.
           split (chunks ! k) = take (nat max_chunk_size) (drop (k * nat max_chunk_size) (split text))
         \<and> 0 < length (split (chunks ! k))
         \<and> int (length (split (chunks ! k))) \<le> max_chunk_size
         \<and> (Suc k < length chunks \<longrightarrow> int (length (split (chunks ! k))) = max_chunk_size))
     \<and> concat (map split chunks) = split text"
proof -
  define n where "n = nat max_chunk_size"
  define ws where "ws = split text"
  define m where "m = (length ws + n - 1) div n"
  define chunks where "chunks = map (\<lambda>k. join space (take n (drop (k * n) ws))) [0..<m]"
  have n: "0 < n" "int n = max_chunk_size" using assms by (simp_all add: n_def)
  have ct: "chunk_text text max_chunk_size = Inr chunks"
    using chunk_text_positive [OF assms, of "text"] by (simp add: chunks_def m_def ws_def n_def)
  have len: "length chunks = m" by (simp add: chunks_def)
  have nth: "split (chunks ! k) = take n (drop (k * n) ws)" if "k < m" for k
    using that split_join_slice [of n "k * n" "text"] by (simp add: chunks_def ws_def)
  have cover: "length ws \<le> m * n"
    using ceil_div_covers [OF n(1), of "length ws"] by (simp add: m_def)
  have pos: "0 < length (split (chunks ! k))" if "k < m" for k
  proof -
    have "Suc k \<le> m" using that by simp
    have "k * n < length ws"
    proof (rule ccontr)
      assume "\<not> k * n < length ws"
      then have "length ws \<le> k * n" by simp
      then have "(length ws + n - 1) div n \<le> (k * n + n - 1) div n"
        by (intro div_le_mono) simp
      also have "(k * n + n - 1) div n = k"
        by (rule div_nat_eqI) (use n(1) in \<open>simp_all add: mult.commute\<close>)
      finally show False using that by (simp add: m_def)
    qed
    then show ?thesis using nth [OF that] n(1) by simp
  qed
  have le: "length (split (chunks ! k)) \<le> n" if "k < m" for k
    using nth [OF that] by simp
  have full: "length (split (chunks ! k)) = n" if "Suc k < m" for k
  proof -
    have "Suc k * n \<le> length ws"
      using ceil_div_full [OF n(1), of k "length ws"] that by (simp add: m_def)
    then have "n \<le> length ws - k * n" by simp
    moreover have "k < m" using that by simp
    ultimately show ?thesis using nth [of k] by simp
  qed
  have "map split chunks = map (\<lambda>k. take n (drop (k * n) ws)) [0..<m]"
    using nth by (simp add: chunks_def)
  then have "concat (map split chunks) = take (m * n) ws"
    by (simp only: concat_slices)
  then have all: "concat (map split chunks) = split text"
    using cover by (simp add: ws_def)
  have "length chunks = (length (split text) + nat max_chunk_size - 1) div nat max_chunk_size"
    by (simp add: len m_def ws_def n_def)
  moreover have "\<forall>k < length chunks.
           split (chunks ! k) = take (nat max_chunk_size) (drop (k * nat max_chunk_size) (split text))
         \<and> 0 < length (split (chunks ! k))
         \<and> int (length (split (chunks ! k))) \<le> max_chunk_size
         \<and> (Suc k < length chunks \<longrightarrow> int (length (split (chunks ! k))) = max_chunk_size)"
  proof (intro allI impI conjI)
    fix k assume k: "k < length chunks"
    then have km: "k < m" by (simp add: len)
    show "split (chunks ! k) = take (nat max_chunk_size) (drop (k * nat max_chunk_size) (split text))"
      using nth [OF km] by (simp add: n_def ws_def)
    show "0 < length (split (chunks ! k))" using pos [OF km] .
    show "int (length (split (chunks ! k))) \<le> max_chunk_size"
      using le [OF km] n(2) by linarith
    assume "Suc k < length chunks"
    then have "Suc k < m" by (simp add: len)
    then show "int (length (split (chunks ! k))) = max_chunk_size"
      using full n(2) by simp
  qed
  ultimately show ?thesis using ct all by blast
qed

text \<open>
  A text of five words with a doubled and a trailing space, in chunks of two words: the
  whitespace is normalised, the words are kept.
\<close>

theorem chunk_text_lossless_witness:
  "chunk_text (str ''the quick  brown fox jumps '') 2 =
     Inr [str ''the quick'', str ''brown fox'', str ''jumps'']
   \<and> concat (map split [str ''the quick'', str ''brown fox'', str ''jumps'']) =
       split (str ''the quick  brown fox jumps '')
   \<and> split (str ''the quick  brown fox jumps '') =
       [str ''the'', str ''quick'', str ''brown'', str ''fox'', str ''jumps'']"
proof -
  let ?t = "str ''the quick  brown fox jumps ''"
  have ws: "split ?t = [str ''the'', str ''quick'', str ''brown'', str ''fox'', str ''jumps'']"
    by (simp add: split_def str_def isspace_def)
  have ev: "chunk_text ?t 2 = Inr [str ''the quick'', str ''brown fox'', str ''jumps'']"
    by (simp only: chunk_text_def ws Let_def) (simp add: chunk_loop.simps space_def str_def)
  have "(0::int) < 2" by simp
  from chunk_text_lossless [OF this, of ?t] obtain chunks where
    "chunk_text ?t 2 = Inr chunks" "concat (map split chunks) = split ?t"
    by blast
  with ev ws show ?thesis by simp
qed

section \<open>Doubles\<close>

text \<open>
  The exponent that \<open>ilog2\<close> computes is the one that brackets the number, so the
  nearest double of a number with a known bracket is found by rounding one quotient.
\<close>

lemma bitlen_eqI:
  assumes "2 ^ n \<le> x" "x < 2 ^ Suc n"
  shows "bitlen x = int n + 1"
proof -
  have "bitlen x \<le> int (Suc n) \<longleftrightarrow> 0 \<le> int (Suc n) \<and> x < 2 ^ nat (int (Suc n))"
    by (rule bitlen_le_iff_power)
  then have "bitlen x \<le> int (Suc n)"
    using assms(2) by (simp only: nat_int of_nat_0_le_iff simp_thms)
  moreover have "int (Suc n) \<le> bitlen x \<longleftrightarrow> int (Suc n) \<le> 0 \<or> 2 ^ (nat (int (Suc n)) - 1) \<le> x"
    by (rule bitlen_ge_iff_power)
  then have "int (Suc n) \<le> bitlen x"
    using assms(1) by (simp only: nat_int diff_Suc_1 simp_thms)
  ultimately show ?thesis by simp
qed

lemma ilog2_big:
  assumes "2 ^ n \<le> q" "q < 2 ^ Suc n"
  shows "ilog2 q = int n"
proof -
  have q1: "1 \<le> q"
    using assms(1) one_le_power [of "2::rat" n] by linarith
  have "(2::int) ^ n \<le> \<lfloor>q\<rfloor>"
    using assms(1) by (simp add: le_floor_iff)
  moreover have "\<lfloor>q\<rfloor> < 2 ^ Suc n"
    using assms(2) by (simp add: floor_less_iff)
  ultimately have "bitlen \<lfloor>q\<rfloor> = int n + 1" by (rule bitlen_eqI)
  then show ?thesis using q1 by (simp add: ilog2_def)
qed

lemma ilog2_small:
  assumes "1 \<le> q * 2 ^ Suc k" "q * 2 ^ Suc k < 2"
  shows "ilog2 q = - int (Suc k)"
proof -
  have p: "(0::rat) < 2 ^ Suc k" by simp
  have "0 < q * 2 ^ Suc k" using assms(1) by linarith
  then have q0: "0 < q"
    using p by (simp add: zero_less_mult_iff)
  have "(1::rat) \<le> 2 ^ k" by (rule one_le_power) simp
  then have "(2::rat) \<le> 2 ^ Suc k" by simp
  then have "q * 2 ^ Suc k < 1 * 2 ^ Suc k"
    using assms(2) by linarith
  then have qlt: "q < 1"
    by (simp only: mult_less_cancel_right_pos [OF p])
  have inv_le: "1 / q \<le> 2 ^ Suc k"
    using assms(1) q0 by (simp add: field_simps)
  have inv_gt: "2 ^ k < 1 / q"
    using assms(2) q0 by (simp add: field_simps)
  have "\<lceil>1 / q\<rceil> \<le> 2 ^ Suc k"
    using inv_le by (simp add: ceiling_le_iff)
  then have up: "\<lceil>1 / q\<rceil> - 1 < 2 ^ Suc k" by simp
  have "(2::int) ^ k < \<lceil>1 / q\<rceil>"
    using inv_gt by (simp add: less_ceiling_iff)
  then have lo: "2 ^ k \<le> \<lceil>1 / q\<rceil> - 1" by simp
  have "bitlen (\<lceil>1 / q\<rceil> - 1) = int k + 1"
    using lo up by (rule bitlen_eqI)
  then show ?thesis using qlt by (simp add: ilog2_def)
qed

lemma round_half_even_down:
  assumes "of_int k \<le> x" "x < of_int k + 1 / 2"
  shows "round_half_even x = k"
proof -
  have "\<lfloor>x\<rfloor> = k" using assms by (intro floor_unique) simp_all
  then show ?thesis using assms by (simp add: round_half_even_def Let_def)
qed

lemma round_half_even_up:
  assumes "of_int k - 1 / 2 < x" "x < of_int k"
  shows "round_half_even x = k"
proof -
  have "\<lfloor>x\<rfloor> = k - 1" using assms by (intro floor_unique) simp_all
  then show ?thesis using assms by (simp add: round_half_even_def Let_def)
qed

lemma round_half_even_near: "\<bar>of_int (round_half_even x) - x\<bar> \<le> 1 / 2"
proof -
  have "of_int \<lfloor>x\<rfloor> \<le> x" "x < of_int \<lfloor>x\<rfloor> + 1" by linarith+
  then show ?thesis
    by (auto simp: round_half_even_def Let_def)
qed

lemma round_half_even_nonneg: "0 \<le> x \<Longrightarrow> 0 \<le> round_half_even x"
  by (auto simp: round_half_even_def Let_def)

lemma nearest_double_0: "nearest_double 0 = 0"
  by (simp add: nearest_double_def)

lemma nearest_double_nonneg:
  assumes "0 \<le> q"
  shows "0 \<le> nearest_double q"
proof (cases "q = 0")
  case True
  then show ?thesis by (simp add: nearest_double_def)
next
  case False
  define u :: rat where "u = 2 powi (ilog2 \<bar>q\<bar> - 52)"
  have u: "0 < u" by (simp add: u_def)
  have "0 \<le> \<bar>q\<bar> / u" using u by simp
  then have "0 \<le> round_half_even (\<bar>q\<bar> / u)" by (rule round_half_even_nonneg)
  then have "0 \<le> sgn q * of_int (round_half_even (\<bar>q\<bar> / u)) * u"
    using assms False u by (simp add: sgn_if)
  then show ?thesis using False by (simp add: nearest_double_def u_def Let_def)
qed

lemma nearest_double_big:
  assumes "2 ^ n \<le> q" "q < 2 ^ Suc n" "n \<le> 52"
    and "round_half_even (q * 2 ^ (52 - n)) = m"
  shows "nearest_double q = of_int m / 2 ^ (52 - n)"
proof -
  have q0: "0 < q"
    using assms(1) zero_less_power [of "2::rat" n] by linarith
  have e: "ilog2 q = int n" using assms(1,2) by (rule ilog2_big)
  have "int n - 52 = - int (52 - n)" using assms(3) by simp
  then have u: "(2::rat) powi (int n - 52) = 1 / 2 ^ (52 - n)"
    by (simp only: power_int_minus_divide power_int_of_nat)
  show ?thesis
    using q0 assms(4) by (simp add: nearest_double_def e u Let_def)
qed

lemma nearest_double_small:
  assumes "1 \<le> q * 2 ^ Suc k" "q * 2 ^ Suc k < 2"
    and "round_half_even (q * 2 ^ (Suc k + 52)) = m"
  shows "nearest_double q = of_int m / 2 ^ (Suc k + 52)"
proof -
  have "0 < q * 2 ^ Suc k" using assms(1) by linarith
  then have q0: "0 < q" by (simp add: zero_less_mult_iff)
  have e: "ilog2 q = - int (Suc k)" using assms(1,2) by (rule ilog2_small)
  have "- int (Suc k) - 52 = - int (Suc k + 52)" by simp
  then have u: "(2::rat) powi (- int (Suc k) - 52) = 1 / 2 ^ (Suc k + 52)"
    by (simp only: power_int_minus_divide power_int_of_nat)
  have nz: "q \<noteq> 0" "\<bar>q\<bar> = q" "sgn q = 1" using q0 by simp_all
  have "nearest_double q =
      sgn q * of_int (round_half_even (\<bar>q\<bar> / 2 powi (ilog2 \<bar>q\<bar> - 52))) * 2 powi (ilog2 \<bar>q\<bar> - 52)"
    using nz(1) by (simp only: nearest_double_def Let_def if_False)
  also have "\<dots> = of_int (round_half_even (q / (1 / 2 ^ (Suc k + 52)))) * (1 / 2 ^ (Suc k + 52))"
    by (simp only: nz e u mult_1)
  also have "\<dots> = of_int m / 2 ^ (Suc k + 52)"
    using assms(3) by simp
  finally show ?thesis .
qed

text \<open>
  Some doubles, and some roundings. The quotients \<^verbatim>\<open>1 / 400\<close> and
  \<^verbatim>\<open>1 / 80\<close> lie, as doubles, just above the ties 0.0025 and 0.0125, so that
  \<^verbatim>\<open>round\<close> takes them up, to 0.003 and 0.013.
\<close>

lemma nearest_double_1: "nearest_double 1 = 1"
proof -
  have "round_half_even (1 * 2 ^ (52 - 0)) = 2 ^ 52"
    by (rule round_half_even_down) simp_all
  from nearest_double_big [of 0 1, OF _ _ _ this] show ?thesis by simp
qed

lemma nearest_double_5_4: "nearest_double (5 / 4) = 5 / 4"
proof -
  have "round_half_even (5 / 4 * 2 ^ (52 - 0)) = 5 * 2 ^ 50"
    by (rule round_half_even_down) simp_all
  from nearest_double_big [of 0 "5 / 4", OF _ _ _ this] show ?thesis by simp
qed

lemma nearest_double_1_3: "nearest_double (1 / 3) = 6004799503160661 / 2 ^ 54"
proof -
  have "round_half_even (1 / 3 * 2 ^ (Suc 1 + 52)) = 6004799503160661"
    by (rule round_half_even_down) simp_all
  from nearest_double_small [of "1 / 3" 1, OF _ _ this] show ?thesis by simp
qed

lemma nearest_double_333_1000: "nearest_double (333 / 1000) = 5998794703657501 / 2 ^ 54"
proof -
  have "round_half_even (333 / 1000 * 2 ^ (Suc 1 + 52)) = 5998794703657501"
    by (rule round_half_even_up) simp_all
  from nearest_double_small [of "333 / 1000" 1, OF _ _ this] show ?thesis by simp
qed

lemma nearest_double_1_1000: "nearest_double (1 / 1000) = 4611686018427388 / 2 ^ 62"
proof -
  have "round_half_even (1 / 1000 * 2 ^ (Suc 9 + 52)) = 4611686018427388"
    by (rule round_half_even_up) simp_all
  from nearest_double_small [of "1 / 1000" 9, OF _ _ this] show ?thesis by simp
qed

lemma nearest_double_800_1601: "nearest_double (800 / 1601) = 9001573271446338 / 2 ^ 54"
proof -
  have "round_half_even (800 / 1601 * 2 ^ (Suc 1 + 52)) = 9001573271446338"
    by (rule round_half_even_down) simp_all
  from nearest_double_small [of "800 / 1601" 1, OF _ _ this] show ?thesis by simp
qed

lemma nearest_double_1_400: "nearest_double (1 / 400) = 5764607523034235 / 2 ^ 61"
proof -
  have "round_half_even (1 / 400 * 2 ^ (Suc 8 + 52)) = 5764607523034235"
    by (rule round_half_even_up) simp_all
  from nearest_double_small [of "1 / 400" 8, OF _ _ this] show ?thesis by simp
qed

lemma nearest_double_1_80: "nearest_double (1 / 80) = 7205759403792794 / 2 ^ 59"
proof -
  have "round_half_even (1 / 80 * 2 ^ (Suc 6 + 52)) = 7205759403792794"
    by (rule round_half_even_up) simp_all
  from nearest_double_small [of "1 / 80" 6, OF _ _ this] show ?thesis by simp
qed

lemma py_round_1_3: "py_round (nearest_double (1 / 3)) 3 = nearest_double (333 / 1000)"
proof -
  have "round_half_even (nearest_double (1 / 3) * 10 ^ 3) = 333"
    unfolding nearest_double_1_3 by (rule round_half_even_down) simp_all
  then show ?thesis by (simp add: py_round_def)
qed

lemma py_round_1_1000: "py_round (nearest_double (1 / 1000)) 3 = nearest_double (1 / 1000)"
proof -
  have "round_half_even (nearest_double (1 / 1000) * 10 ^ 3) = 1"
    unfolding nearest_double_1_1000 by (rule round_half_even_down) simp_all
  then show ?thesis by (simp add: py_round_def)
qed

lemma py_round_800_1601: "py_round (nearest_double (800 / 1601)) 3 = nearest_double (1 / 2)"
proof -
  have "round_half_even (nearest_double (800 / 1601) * 10 ^ 3) = 500"
    unfolding nearest_double_800_1601 by (rule round_half_even_up) simp_all
  then show ?thesis by (simp add: py_round_def)
qed

lemma py_round_1_400: "py_round (nearest_double (1 / 400)) 3 = nearest_double (3 / 1000)"
proof -
  have "round_half_even (nearest_double (1 / 400) * 10 ^ 3) = 3"
    unfolding nearest_double_1_400 by (rule round_half_even_up) simp_all
  then show ?thesis by (simp add: py_round_def)
qed

lemma py_round_1_80: "py_round (nearest_double (1 / 80)) 3 = nearest_double (13 / 1000)"
proof -
  have "round_half_even (nearest_double (1 / 80) * 10 ^ 3) = 13"
    unfolding nearest_double_1_80 by (rule round_half_even_up) simp_all
  then show ?thesis by (simp add: py_round_def)
qed

lemma nearest_double_1_2: "nearest_double (1 / 2) = 1 / 2"
proof -
  have "round_half_even (1 / 2 * 2 ^ (Suc 0 + 52)) = 2 ^ 52"
    by (rule round_half_even_down) simp_all
  from nearest_double_small [of "1 / 2" 0, OF _ _ this] show ?thesis by simp
qed

lemma py_round_0: "py_round 0 n = 0"
  by (simp add: py_round_def round_half_even_def nearest_double_0)

lemma py_round_nonneg: "0 \<le> x \<Longrightarrow> 0 \<le> py_round x n"
  unfolding py_round_def
  by (intro nearest_double_nonneg divide_nonneg_nonneg) (simp_all add: round_half_even_nonneg)

lemma py_round_1: "py_round 1 3 = 1"
proof -
  have "round_half_even (1 * 10 ^ 3) = 1000"
    by (rule round_half_even_down) simp_all
  then show ?thesis by (simp add: py_round_def nearest_double_1)
qed

lemma py_round_5_4: "py_round (5 / 4) 2 = 5 / 4"
proof -
  have "round_half_even (5 / 4 * 10 ^ 2) = 125"
    by (rule round_half_even_down) simp_all
  then show ?thesis by (simp add: py_round_def nearest_double_5_4)
qed

lemma doubles_differ: "nearest_double (333 / 1000) \<noteq> nearest_double (1 / 3)"
  unfolding nearest_double_333_1000 nearest_double_1_3 by simp

section \<open>One call of generate\_summary\<close>

text \<open>The call is logged whatever the runtime answers.\<close>

lemma generate_summary_calls:
  "calls (snd (generate_summary bart t mx mn s)) =
     calls s @ [\<lparr>call_text = t, call_max_length = mx, call_min_length = mn\<rparr>]"
  by (simp add: generate_summary_def Let_def py_truediv_def split: prod.splits sum.splits)

lemma generate_summary_Inl:
  "bart (world s) \<lparr>call_text = t, call_max_length = mx, call_min_length = mn\<rparr> = (Inl e, w)
   \<Longrightarrow> generate_summary bart t mx mn s =
       (Inl e, \<lparr>calls = calls s @ [\<lparr>call_text = t, call_max_length = mx, call_min_length = mn\<rparr>],
                world = w\<rparr>)"
  by (simp add: generate_summary_def Let_def)

lemma generate_summary_Inr:
  "bart (world s) \<lparr>call_text = t, call_max_length = mx, call_min_length = mn\<rparr> = (Inr (d, el), w)
   \<Longrightarrow> generate_summary bart t mx mn s =
       (Inr \<lparr>summary_text = d,
             generation_time = py_round el 2,
             original_length = length (split t),
             summary_length = length (split d),
             compression_ratio =
               py_round (if length (split t) = 0 then 0
                         else nearest_double
                                (of_nat (length (split d)) / of_nat (length (split t)))) 3\<rparr>,
        \<lparr>calls = calls s @ [\<lparr>call_text = t, call_max_length = mx, call_min_length = mn\<rparr>],
         world = w\<rparr>)"
  by (simp add: generate_summary_def Let_def py_truediv_def)


section \<open>The loop over the chunks\<close>

lemma summarize_chunks_calls:
  "\<exists>k \<le> length chunks.
     calls (snd (summarize_chunks bart chunks acc s)) = calls s @ map chunk_call (take k chunks)
     \<and> ((\<exists>chunk_summaries. fst (summarize_chunks bart chunks acc s) = Inr chunk_summaries) \<longrightarrow> k = length chunks)
     \<and> ((\<exists>e. fst (summarize_chunks bart chunks acc s) = Inl e) \<longrightarrow> 0 < k)"
proof (induction chunks arbitrary: acc s)
  case Nil
  then show ?case by simp
next
  case (Cons c chunks)
  obtain r s1 where g: "generate_summary bart c 200 80 s = (r, s1)"
    by (cases "generate_summary bart c 200 80 s")
  have c1: "calls s1 = calls s @ [chunk_call c]"
    using generate_summary_calls [of bart c 200 80 s] g by (simp add: chunk_call_def)
  show ?case
  proof (cases r)
    case (Inl e)
    then have "calls (snd (summarize_chunks bart (c # chunks) acc s)) =
        calls s @ map chunk_call (take 1 (c # chunks))"
      and "\<not> (\<exists>chunk_summaries. fst (summarize_chunks bart (c # chunks) acc s) = Inr chunk_summaries)"
      using g c1 by simp_all
    then show ?thesis
      by (intro exI [of _ 1]) simp
  next
    case (Inr res)
    let ?R = "summarize_chunks bart chunks (acc @ [summary_text res]) s1"
    have eq: "summarize_chunks bart (c # chunks) acc s = ?R"
      using g Inr by simp
    from Cons.IH [of "acc @ [summary_text res]" s1] obtain k where
      k: "k \<le> length chunks" "calls (snd ?R) = calls s1 @ map chunk_call (take k chunks)"
         "(\<exists>chunk_summaries. fst ?R = Inr chunk_summaries) \<longrightarrow> k = length chunks"
      by blast
    show ?thesis
      using k c1 unfolding eq by (intro exI [of _ "Suc k"]) simp
  qed
qed

text \<open>When the loop finishes, every chunk was summarised in turn: there are the states
  between the calls, and summary \<open>k\<close> is the text the call on chunk \<open>k\<close> returned.\<close>

lemma summarize_chunks_trace:
  "summarize_chunks bart chunks acc s = (Inr chunk_summaries, s') \<Longrightarrow>
   \<exists>outs sts. chunk_summaries = acc @ outs \<and> length outs = length chunks
     \<and> length sts = Suc (length chunks) \<and> sts ! 0 = s \<and> sts ! length chunks = s'
     \<and> (\<forall>k < length chunks. \<exists>res.
           generate_summary bart (chunks ! k) 200 80 (sts ! k) = (Inr res, sts ! Suc k)
           \<and> outs ! k = summary_text res)"
proof (induction chunks arbitrary: acc s)
  case Nil
  then show ?case by (intro exI [of _ "[]"] exI [of _ "[s]"]) simp
next
  case (Cons c chunks)
  obtain r s1 where g: "generate_summary bart c 200 80 s = (r, s1)"
    by (cases "generate_summary bart c 200 80 s")
  with Cons.prems obtain res where r: "r = Inr res"
    by (cases r) simp_all
  with g Cons.prems have
    "summarize_chunks bart chunks (acc @ [summary_text res]) s1 = (Inr chunk_summaries, s')"
    by simp
  from Cons.IH [OF this] obtain outs sts where
    o: "chunk_summaries = (acc @ [summary_text res]) @ outs" "length outs = length chunks"
       "length sts = Suc (length chunks)" "sts ! 0 = s1" "sts ! length chunks = s'"
       "\<forall>k < length chunks. \<exists>res.
           generate_summary bart (chunks ! k) 200 80 (sts ! k) = (Inr res, sts ! Suc k)
           \<and> outs ! k = summary_text res"
    by blast
  have step: "\<exists>res'. generate_summary bart ((c # chunks) ! k) 200 80 ((s # sts) ! k) =
                 (Inr res', (s # sts) ! Suc k)
               \<and> (summary_text res # outs) ! k = summary_text res'"
    if "k < length (c # chunks)" for k
  proof (cases k)
    case 0
    then show ?thesis using g r o(4) by simp
  next
    case (Suc j)
    then have "j < length chunks" using that by simp
    with o(6) Suc show ?thesis by simp
  qed
  show ?case
    using o(1,2,3,5) step
    by (intro exI [of _ "summary_text res # outs"] exI [of _ "s # sts"]) simp
qed


section \<open>The long-document path\<close>

lemma chunk_text_800:
  "chunk_text t 800 =
     Inr (map (\<lambda>k. join space (take 800 (drop (k * 800) (split t))))
            [0..<chunk_count (length (split t))])"
  using chunk_text_positive [of 800 t] by (simp add: chunk_count_def add.commute)

lemma new_calls_append: "calls s' = calls s @ cs \<Longrightarrow> new_calls s s' = cs"
  by (simp add: new_calls_def)

text \<open>
  A run on a long text, step by step: the chunk calls that were made, and, when the loop
  went through, the one call on the joined summaries.
\<close>

lemma summarize_long_text_long:
  assumes "1000 < length (split t)"
    and "summarize_long_text bart t mx mn s = (r, s')"
  obtains (failed) chunks k e where
      "chunk_text t 800 = Inr chunks" "length chunks = chunk_count (length (split t))"
      "k \<le> length chunks" "r = Inl e"
      "calls s' = calls s @ map chunk_call (take k chunks)" "0 < k"
  | (reduced) chunks chunk_summaries s1 where
      "chunk_text t 800 = Inr chunks" "length chunks = chunk_count (length (split t))"
      "summarize_chunks bart chunks [] s = (Inr chunk_summaries, s1)"
      "calls s1 = calls s @ map chunk_call chunks"
      "generate_summary bart (join space chunk_summaries) mx mn s1 = (r, s')"
      "calls s' = calls s @ map chunk_call chunks @
         [\<lparr>call_text = join space chunk_summaries, call_max_length = mx, call_min_length = mn\<rparr>]"
proof -
  define chunks where
    "chunks = map (\<lambda>k. join space (take 800 (drop (k * 800) (split t))))
                [0..<chunk_count (length (split t))]"
  have ct: "chunk_text t 800 = Inr chunks"
    by (simp add: chunk_text_800 chunks_def)
  have len: "length chunks = chunk_count (length (split t))"
    by (simp add: chunks_def)
  obtain r1 s1 where sc: "summarize_chunks bart chunks [] s = (r1, s1)"
    by (cases "summarize_chunks bart chunks [] s")
  from summarize_chunks_calls [of chunks bart "[]" s] obtain k where
    k: "k \<le> length chunks" "calls s1 = calls s @ map chunk_call (take k chunks)"
       "(\<exists>cs. r1 = Inr cs) \<longrightarrow> k = length chunks"
       "(\<exists>e. r1 = Inl e) \<longrightarrow> 0 < k"
    using sc by auto
  show thesis
  proof (cases r1)
    case (Inl e)
    then have "r = Inl e" "s' = s1"
      using assms ct sc by (simp_all add: summarize_long_text_def)
    then show thesis using failed [OF ct len k(1)] k(2,4) Inl by simp
  next
    case (Inr chunk_summaries)
    then have g: "generate_summary bart (join space chunk_summaries) mx mn s1 = (r, s')"
      using assms ct sc by (simp add: summarize_long_text_def)
    have c1: "calls s1 = calls s @ map chunk_call chunks"
      using k Inr by simp
    have "calls s' = calls s1 @
        [\<lparr>call_text = join space chunk_summaries, call_max_length = mx, call_min_length = mn\<rparr>]"
      using generate_summary_calls [of bart "join space chunk_summaries" mx mn s1] g by simp
    then have "calls s' = calls s @ map chunk_call chunks @
        [\<lparr>call_text = join space chunk_summaries, call_max_length = mx, call_min_length = mn\<rparr>]"
      using c1 by simp
    then show thesis using reduced [OF ct len _ c1 g] sc Inr by simp
  qed
qed



section \<open>The example text\<close>

lemma str_w: "str ''w'' = [119]"
  by (simp add: str_def)

lemma not_isspace_119: "\<not> isspace 119"
  by (simp add: isspace_def)

lemma is_word_w: "is_word (str ''w'')"
  by (simp add: is_word_def str_w not_isspace_119)

lemma split_w: "split (str ''w'') = [str ''w'']"
  using split_join [of "[str ''w'']"] is_word_w by simp

lemma split_replicate_w: "split (join space (replicate n (str ''w''))) = replicate n (str ''w'')"
  by (rule split_join) (simp add: list_all_iff is_word_w)

lemma split_long_text: "split long_text = replicate 1601 (str ''w'')"
  by (simp add: long_text_def split_replicate_w)

lemma split_full_chunk: "split full_chunk = replicate 800 (str ''w'')"
  by (simp add: full_chunk_def split_replicate_w)

lemma chunk_count_1601: "chunk_count 1601 = 3"
  by (simp add: chunk_count_def)

lemma upt_3: "[0..<3] = [0, 1, 2]"
  by (simp add: upt_conv_Cons numeral_3_eq_3)

lemma chunks_long_text: "chunk_text long_text 800 = Inr [full_chunk, full_chunk, str ''w'']"
  by (simp add: chunk_text_800 split_long_text chunk_count_1601 upt_3 full_chunk_def)



section \<open>Runs on the stand-in runtime\<close>

lemma take_split_words: "split (join space (take k (split t))) = take k (split t)"
  using split_join_slice [of k 0 t] by simp

lemma generate_summary_head_backend:
  "generate_summary (head_backend k) t mx mn s =
     (Inr \<lparr>summary_text = join space (take k (split t)),
           generation_time = 5 / 4,
           original_length = length (split t),
           summary_length = min (length (split t)) k,
           compression_ratio =
             py_round (if length (split t) = 0 then 0
                       else nearest_double
                              (of_nat (min (length (split t)) k) / of_nat (length (split t)))) 3\<rparr>,
      \<lparr>calls = calls s @ [\<lparr>call_text = t, call_max_length = mx, call_min_length = mn\<rparr>],
       world = ()\<rparr>)"
  using generate_summary_Inr [of "head_backend k" s t mx mn "join space (take k (split t))" "5 / 4" "()"]
  by (simp add: head_backend_def py_round_5_4 take_split_words)

lemma www: "str ''w'' @ space @ str ''w'' @ space @ str ''w'' = str ''w w w''"
  by (simp add: str_def space_def)

lemma split_www: "split (str ''w w w'') = [str ''w'', str ''w'', str ''w'']"
  using split_join [of "[str ''w'', str ''w'', str ''w'']"] is_word_w by (simp add: www)

lemma run_long_text:
  "summarize_long_text (head_backend 1) long_text 400 150 s0 =
     (Inr \<lparr>summary_text = str ''w'',
           generation_time = 5 / 4,
           original_length = 3,
           summary_length = 1,
           compression_ratio = nearest_double (333 / 1000)\<rparr>,
      \<lparr>calls = [chunk_call full_chunk, chunk_call full_chunk, chunk_call (str ''w''),
                \<lparr>call_text = str ''w w w'', call_max_length = 400, call_min_length = 150\<rparr>],
       world = ()\<rparr>)"
  by (simp add: summarize_long_text_def split_long_text chunks_long_text
      generate_summary_head_backend split_full_chunk split_w www split_www
      py_round_1_3 py_round_1 nearest_double_1 s0_def chunk_call_def)

text \<open>
  On a runtime that cannot load the model, the run on the long text ends with the first
  chunk call: the exception is passed on and no further call is made.
\<close>

lemma run_long_text_failing:
  "summarize_long_text failing_backend long_text 400 150 s0 =
     (Inl (HTTPException 500 ''Failed to load AI model''),
      \<lparr>calls = [chunk_call full_chunk], world = ()\<rparr>)"
proof -
  have g: "generate_summary failing_backend full_chunk 200 80 s0 =
      (Inl (HTTPException 500 ''Failed to load AI model''),
       \<lparr>calls = [chunk_call full_chunk], world = ()\<rparr>)"
    using generate_summary_Inl [of failing_backend s0 full_chunk 200 80
        "HTTPException 500 ''Failed to load AI model''" "()"]
    by (simp add: failing_backend_def s0_def chunk_call_def)
  show ?thesis
    by (simp add: summarize_long_text_def split_long_text chunks_long_text g)
qed

section \<open>Properties of summarize\_long\_text\<close>

text \<open>
  C3. A run on a text of more than 1000 words that returns a result went like this: the
  text was cut into its chunks of 800 words; \<open>generate_summary\<close> was called on chunk 0,
  then chunk 1, and so on, each time with \<open>max_length = 200\<close> and \<open>min_length = 80\<close>, each
  call starting in the state the one before left; the summaries, in chunk order, were
  joined with single spaces; and the result is that of one more call, on the joined text,
  with the caller's \<open>max_length\<close> and \<open>min_length\<close>. No other call was made.
\<close>

theorem summarize_long_text_map_reduce:
  assumes "1000 < length (split t)"
    and "summarize_long_text bart t mx mn s = (Inr res, s')"
  shows "\<exists>chunks chunk_summaries sts.
     chunk_text t 800 = Inr chunks
     \<and> length chunk_summaries = length chunks
     \<and> length sts = Suc (length chunks) \<and> sts ! 0 = s
     \<and> (\<forall>k < length chunks. \<exists>r.
           generate_summary bart (chunks ! k) 200 80 (sts ! k) = (Inr r, sts ! Suc k)
           \<and> chunk_summaries ! k = summary_text r)
     \<and> generate_summary bart (join space chunk_summaries) mx mn (sts ! length chunks) = (Inr res, s')
     \<and> new_calls s s' = map chunk_call chunks @
           [\<lparr>call_text = join space chunk_summaries, call_max_length = mx, call_min_length = mn\<rparr>]"
  using assms
proof (cases rule: summarize_long_text_long)
  case (failed chunks k e)
  then show ?thesis by simp
next
  case (reduced chunks chunk_summaries s1)
  from summarize_chunks_trace [OF reduced(3)] obtain outs sts where
    t: "chunk_summaries = [] @ outs" "length outs = length chunks"
       "length sts = Suc (length chunks)" "sts ! 0 = s" "sts ! length chunks = s1"
       "\<forall>k < length chunks. \<exists>r.
           generate_summary bart (chunks ! k) 200 80 (sts ! k) = (Inr r, sts ! Suc k)
           \<and> outs ! k = summary_text r"
    by blast
  have nc: "new_calls s s' = map chunk_call chunks @
      [\<lparr>call_text = join space chunk_summaries, call_max_length = mx, call_min_length = mn\<rparr>]"
    using reduced(6) by (rule new_calls_append)
  show ?thesis
    using reduced(1,5) t nc
    by (intro exI [of _ chunks] exI [of _ chunk_summaries] exI [of _ sts]) simp
qed

text \<open>
  The text of 1601 words on the stand-in runtime that keeps the first word: the three chunk
  calls, then the call on the three summaries joined.
\<close>

theorem summarize_long_text_map_reduce_witness:
  "summarize_long_text (head_backend 1) long_text 400 150 s0 =
     (Inr \<lparr>summary_text = str ''w'', generation_time = 5 / 4, original_length = 3,
           summary_length = 1, compression_ratio = nearest_double (333 / 1000)\<rparr>,
      \<lparr>calls = [chunk_call full_chunk, chunk_call full_chunk, chunk_call (str ''w''),
                \<lparr>call_text = str ''w w w'', call_max_length = 400, call_min_length = 150\<rparr>],
       world = ()\<rparr>)
   \<and> (\<exists>chunk_summaries.
        length chunk_summaries = 3
        \<and> [chunk_call full_chunk, chunk_call full_chunk, chunk_call (str ''w''),
            \<lparr>call_text = str ''w w w'', call_max_length = 400, call_min_length = 150\<rparr>] =
          map chunk_call [full_chunk, full_chunk, str ''w''] @
            [\<lparr>call_text = join space chunk_summaries, call_max_length = 400,
               call_min_length = 150\<rparr>])"
proof -
  have long: "1000 < length (split long_text)" by (simp add: split_long_text)
  from summarize_long_text_map_reduce [OF long run_long_text]
  obtain chunks chunk_summaries where
    "chunk_text long_text 800 = Inr chunks" "length chunk_summaries = length chunks"
    "new_calls s0 \<lparr>calls = [chunk_call full_chunk, chunk_call full_chunk, chunk_call (str ''w''),
                \<lparr>call_text = str ''w w w'', call_max_length = 400, call_min_length = 150\<rparr>],
       world = ()\<rparr> = map chunk_call chunks @
           [\<lparr>call_text = join space chunk_summaries, call_max_length = 400, call_min_length = 150\<rparr>]"
    by blast
  then have "length chunk_summaries = 3
        \<and> [chunk_call full_chunk, chunk_call full_chunk, chunk_call (str ''w''),
            \<lparr>call_text = str ''w w w'', call_max_length = 400, call_min_length = 150\<rparr>] =
          map chunk_call [full_chunk, full_chunk, str ''w''] @
            [\<lparr>call_text = join space chunk_summaries, call_max_length = 400,
               call_min_length = 150\<rparr>]"
    by (auto simp: chunks_long_text new_calls_def s0_def)
  then show ?thesis using run_long_text by blast
qed

lemma split_scan_Nil_iff: "split_scan cur cs = [] \<longleftrightarrow> cur = [] \<and> list_all isspace cs"
  by (induction cs arbitrary: cur) auto

lemma split_Nil_iff: "split t = [] \<longleftrightarrow> list_all isspace t"
  by (simp add: split_def split_scan_Nil_iff)

lemma summarize_long_text_short:
  "length (split t) \<le> 1000 \<Longrightarrow>
     summarize_long_text bart t mx mn s = generate_summary bart t mx mn s"
  by (simp add: summarize_long_text_def)

text \<open>
  C4. On a text of at most 1000 words \<open>summarize_long_text\<close> makes one call of
  \<open>generate_summary\<close>, with the caller's text, \<open>max_length\<close> and \<open>min_length\<close>. What the
  runtime raises there is raised; what it decodes is returned with the measured time
  (rounded to two decimals), the two word counts and the compression ratio.
\<close>

theorem summarize_long_text_direct:
  assumes "length (split t) \<le> 1000"
    and "bart (world s) \<lparr>call_text = t, call_max_length = mx, call_min_length = mn\<rparr> = (out, w)"
  shows "summarize_long_text bart t mx mn s =
     ((case out of
         Inl e \<Rightarrow> Inl e
       | Inr (decoded, elapsed) \<Rightarrow>
           Inr \<lparr>summary_text = decoded,
                generation_time = py_round elapsed 2,
                original_length = length (split t),
                summary_length = length (split decoded),
                compression_ratio =
                  py_round (if length (split t) = 0 then 0
                            else nearest_double
                                   (of_nat (length (split decoded)) / of_nat (length (split t)))) 3\<rparr>),
      \<lparr>calls = calls s @ [\<lparr>call_text = t, call_max_length = mx, call_min_length = mn\<rparr>],
       world = w\<rparr>)
   \<and> new_calls s (snd (summarize_long_text bart t mx mn s)) =
       [\<lparr>call_text = t, call_max_length = mx, call_min_length = mn\<rparr>]"
proof -
  have d: "summarize_long_text bart t mx mn s = generate_summary bart t mx mn s"
    using assms(1) by (rule summarize_long_text_short)
  have n: "new_calls s (snd (generate_summary bart t mx mn s)) =
      [\<lparr>call_text = t, call_max_length = mx, call_min_length = mn\<rparr>]"
    by (rule new_calls_append) (rule generate_summary_calls)
  show ?thesis
  proof (cases out)
    case (Inl e)
    then show ?thesis
      using generate_summary_Inl [of bart s t mx mn e w] assms(2) d n by simp
  next
    case (Inr p)
    obtain decoded elapsed where p: "p = (decoded, elapsed)" by (cases p)
    show ?thesis
      using generate_summary_Inr [of bart s t mx mn decoded elapsed w] assms(2) d n Inr p
      by simp
  qed
qed

text \<open>
  A text of exactly 1000 words is still summarised directly, in one call.
\<close>

theorem summarize_long_text_direct_witness:
  "length (split (join space (replicate 1000 (str ''w'')))) = 1000
   \<and> summarize_long_text (head_backend 1) (join space (replicate 1000 (str ''w''))) 400 150 s0 =
     (Inr \<lparr>summary_text = str ''w'', generation_time = 5 / 4, original_length = 1000,
           summary_length = 1, compression_ratio = nearest_double (1 / 1000)\<rparr>,
      \<lparr>calls = [\<lparr>call_text = join space (replicate 1000 (str ''w'')),
                  call_max_length = 400, call_min_length = 150\<rparr>],
       world = ()\<rparr>)"
proof -
  let ?t = "join space (replicate 1000 (str ''w''))"
  have l: "length (split ?t) \<le> 1000" by (simp add: split_replicate_w)
  have b: "head_backend 1 (world s0) \<lparr>call_text = ?t, call_max_length = 400, call_min_length = 150\<rparr>
      = (Inr (str ''w'', 5 / 4), ())"
    by (simp add: head_backend_def split_replicate_w)
  from summarize_long_text_direct
      [of ?t "head_backend 1" s0 400 150 "Inr (str ''w'', 5 / 4)" "()"] l b
  show ?thesis
    by (simp add: split_replicate_w split_w py_round_5_4 py_round_1_1000 s0_def)
qed

text \<open>
  C10. A text without a word (empty, or whitespace only) takes the direct path: one call,
  on that text. A result that comes back has the compression ratio 0, and one does come
  back when the runtime does not raise on the call.
\<close>

theorem summarize_long_text_no_words:
  assumes "length (split t) = 0"
  shows "list_all isspace t
   \<and> summarize_long_text bart t mx mn s = generate_summary bart t mx mn s
   \<and> new_calls s (snd (summarize_long_text bart t mx mn s)) =
       [\<lparr>call_text = t, call_max_length = mx, call_min_length = mn\<rparr>]
   \<and> (\<forall>res. fst (summarize_long_text bart t mx mn s) = Inr res \<longrightarrow>
          original_length res = 0 \<and> compression_ratio res = 0)
   \<and> (\<forall>d el w. bart (world s) \<lparr>call_text = t, call_max_length = mx, call_min_length = mn\<rparr>
                  = (Inr (d, el), w) \<longrightarrow>
          (\<exists>res. fst (summarize_long_text bart t mx mn s) = Inr res))"
proof -
  let ?c = "\<lparr>call_text = t, call_max_length = mx, call_min_length = mn\<rparr>"
  have sp: "list_all isspace t" using assms by (simp add: split_Nil_iff)
  have d: "summarize_long_text bart t mx mn s = generate_summary bart t mx mn s"
    using assms by (simp add: summarize_long_text_short)
  have n: "new_calls s (snd (generate_summary bart t mx mn s)) = [?c]"
    by (rule new_calls_append) (rule generate_summary_calls)
  have z: "original_length res = 0 \<and> compression_ratio res = 0"
    if "fst (generate_summary bart t mx mn s) = Inr res" for res
  proof -
    obtain out w where b: "bart (world s) ?c = (out, w)" by (cases "bart (world s) ?c")
    show ?thesis
    proof (cases out)
      case (Inl e)
      then show ?thesis
        using generate_summary_Inl [of bart s t mx mn e w] b that by simp
    next
      case (Inr p)
      obtain dd el where "p = (dd, el)" by (cases p)
      then show ?thesis
        using generate_summary_Inr [of bart s t mx mn dd el w] b Inr that assms
        by (auto simp: py_round_0)
    qed
  qed
  have ok: "\<exists>res. fst (generate_summary bart t mx mn s) = Inr res"
    if "bart (world s) ?c = (Inr (dd, el), w)" for dd el w
    using generate_summary_Inr [of bart s t mx mn dd el w] that by simp
  show ?thesis
    unfolding d using sp n z ok by blast
qed

text \<open>A space, a tab and a line feed.\<close>

theorem summarize_long_text_no_words_witness:
  "length (split [32, 9, 10]) = 0
   \<and> new_calls s0 (snd (summarize_long_text (head_backend 1) [32, 9, 10] 400 150 s0)) =
       [\<lparr>call_text = [32, 9, 10], call_max_length = 400, call_min_length = 150\<rparr>]
   \<and> summarize_long_text (head_backend 1) [32, 9, 10] 400 150 s0 =
     (Inr \<lparr>summary_text = [], generation_time = 5 / 4, original_length = 0,
           summary_length = 0, compression_ratio = 0\<rparr>,
      \<lparr>calls = [\<lparr>call_text = [32, 9, 10], call_max_length = 400, call_min_length = 150\<rparr>],
       world = ()\<rparr>)"
proof -
  have l: "split [32, 9, 10] = []"
    by (simp add: split_def isspace_def)
  then have l0: "length (split [32, 9, 10]) = 0" by simp
  have ev: "summarize_long_text (head_backend 1) [32, 9, 10] 400 150 s0 =
     (Inr \<lparr>summary_text = [], generation_time = 5 / 4, original_length = 0,
           summary_length = 0, compression_ratio = 0\<rparr>,
      \<lparr>calls = [\<lparr>call_text = [32, 9, 10], call_max_length = 400, call_min_length = 150\<rparr>],
       world = ()\<rparr>)"
    by (simp add: summarize_long_text_def l generate_summary_head_backend py_round_0 s0_def)
  from summarize_long_text_no_words [OF l0, of "head_backend 1" 400 150 s0]
  have "new_calls s0 (snd (summarize_long_text (head_backend 1) [32, 9, 10] 400 150 s0)) =
       [\<lparr>call_text = [32, 9, 10], call_max_length = 400, call_min_length = 150\<rparr>]"
    by blast
  with l0 ev show ?thesis by blast
qed

lemma join_append:
  "xs \<noteq> [] \<Longrightarrow> ys \<noteq> [] \<Longrightarrow> join sep (xs @ ys) = join sep xs @ sep @ join sep ys"
proof (induction sep xs rule: join.induct)
  case (1 sep)
  then show ?case by simp
next
  case (2 sep x)
  then show ?case by (cases ys) simp_all
next
  case (3 sep x y zs)
  then show ?case by simp
qed

lemma join_chunks_long_text:
  "full_chunk @ space @ full_chunk @ space @ str ''w'' = long_text"
proof -
  have "(1601::nat) = 800 + (800 + 1)" by simp
  then have "replicate 1601 (str ''w'') =
      replicate 800 (str ''w'') @ replicate 800 (str ''w'') @ replicate 1 (str ''w'')"
    by (simp only: replicate_add)
  then have "replicate 1601 (str ''w'') =
      replicate 800 (str ''w'') @ replicate 800 (str ''w'') @ [str ''w'']"
    by simp
  then have "long_text = join space (replicate 800 (str ''w'') @ (replicate 800 (str ''w'') @ [str ''w'']))"
    by (simp only: long_text_def)
  also have "\<dots> = full_chunk @ space @ join space (replicate 800 (str ''w'') @ [str ''w''])"
    unfolding full_chunk_def by (rule join_append) simp_all
  also have "join space (replicate 800 (str ''w'') @ [str ''w'']) = full_chunk @ space @ str ''w''"
    unfolding full_chunk_def by (subst join_append) simp_all
  finally show ?thesis by simp
qed

lemma run_long_text_800:
  "summarize_long_text (head_backend 800) long_text 400 150 s0 =
     (Inr \<lparr>summary_text = full_chunk, generation_time = 5 / 4, original_length = 1601,
           summary_length = 800, compression_ratio = 1 / 2\<rparr>,
      \<lparr>calls = [chunk_call full_chunk, chunk_call full_chunk, chunk_call (str ''w''),
                \<lparr>call_text = long_text, call_max_length = 400, call_min_length = 150\<rparr>],
       world = ()\<rparr>)"
  by (simp add: summarize_long_text_def split_long_text chunks_long_text
      generate_summary_head_backend split_full_chunk split_w join_chunks_long_text
      py_round_800_1601 py_round_1 nearest_double_1 nearest_double_1_2 s0_def chunk_call_def
      full_chunk_def [symmetric])

text \<open>
  C8. \<open>summarize_long_text\<close> returns on every input, after at most one call (at most 1000
  words) or at most \<open>ceil(word_count / 800) + 1\<close> calls (more than 1000 words): a bound
  that depends on the input text alone, not on what the runtime returns. On a long text
  the calls are chunk calls, in order, ended early by an exception or followed by exactly
  one call on the joined summaries; the result is the result of that one call of
  \<open>generate_summary\<close>, however many words the joined summaries have.
\<close>

theorem summarize_long_text_single_reduction:
  "\<exists>r s'. summarize_long_text bart t mx mn s = (r, s')
     \<and> length (new_calls s s') \<le>
         (if length (split t) \<le> 1000 then 1 else chunk_count (length (split t)) + 1)
     \<and> (1000 < length (split t) \<longrightarrow>
          (\<exists>chunks. chunk_text t 800 = Inr chunks
             \<and> ((\<exists>k e. k \<le> length chunks \<and> r = Inl e
                        \<and> new_calls s s' = map chunk_call (take k chunks))
                \<or> (\<exists>chunk_summaries s1.
                      length chunk_summaries = length chunks
                      \<and> generate_summary bart (join space chunk_summaries) mx mn s1 = (r, s')
                      \<and> new_calls s s' = map chunk_call chunks @
                            [\<lparr>call_text = join space chunk_summaries,
                              call_max_length = mx, call_min_length = mn\<rparr>]))))"
proof -
  obtain r s' where run: "summarize_long_text bart t mx mn s = (r, s')"
    by (cases "summarize_long_text bart t mx mn s")
  show ?thesis
  proof (cases "length (split t) \<le> 1000")
    case True
    have "new_calls s (snd (generate_summary bart t mx mn s)) =
        [\<lparr>call_text = t, call_max_length = mx, call_min_length = mn\<rparr>]"
      by (rule new_calls_append) (rule generate_summary_calls)
    then have "length (new_calls s s') = 1"
      using run summarize_long_text_short [OF True, of bart mx mn s] by simp
    then show ?thesis using run True by simp
  next
    case False
    then have long: "1000 < length (split t)" by simp
    from long run show ?thesis
    proof (cases rule: summarize_long_text_long)
      case (failed chunks k e)
      have nc: "new_calls s s' = map chunk_call (take k chunks)"
        using failed(5) by (rule new_calls_append)
      then have "length (new_calls s s') \<le> chunk_count (length (split t)) + 1"
        using failed(2,3) by simp
      then show ?thesis using run False failed(1,3,4) nc by auto
    next
      case (reduced chunks chunk_summaries s1)
      have nc: "new_calls s s' = map chunk_call chunks @
          [\<lparr>call_text = join space chunk_summaries, call_max_length = mx, call_min_length = mn\<rparr>]"
        using reduced(6) by (rule new_calls_append)
      then have le: "length (new_calls s s') \<le> chunk_count (length (split t)) + 1"
        using reduced(2) by simp
      from summarize_chunks_trace [OF reduced(3)] have
        "length chunk_summaries = length chunks" by auto
      then have "\<exists>chunk_summaries s1.
                      length chunk_summaries = length chunks
                      \<and> generate_summary bart (join space chunk_summaries) mx mn s1 = (r, s')
                      \<and> new_calls s s' = map chunk_call chunks @
                            [\<lparr>call_text = join space chunk_summaries,
                              call_max_length = mx, call_min_length = mn\<rparr>]"
        using reduced(5) nc by blast
      then show ?thesis using run False le reduced(1) by auto
    qed
  qed
qed

text \<open>
  The text of 1601 words on the stand-in runtime that keeps the first 800 words: it
  returns every chunk whole, so the joined summaries are the 1601 words again. They go
  to one call of \<open>generate_summary\<close> and are not chunked a second time: four calls.
\<close>

theorem summarize_long_text_single_reduction_witness:
  "summarize_long_text (head_backend 800) long_text 400 150 s0 =
     (Inr \<lparr>summary_text = full_chunk, generation_time = 5 / 4, original_length = 1601,
           summary_length = 800, compression_ratio = 1 / 2\<rparr>,
      \<lparr>calls = [chunk_call full_chunk, chunk_call full_chunk, chunk_call (str ''w''),
                \<lparr>call_text = long_text, call_max_length = 400, call_min_length = 150\<rparr>],
       world = ()\<rparr>)
   \<and> length (split long_text) = 1601
   \<and> length (new_calls s0
        \<lparr>calls = [chunk_call full_chunk, chunk_call full_chunk, chunk_call (str ''w''),
                  \<lparr>call_text = long_text, call_max_length = 400, call_min_length = 150\<rparr>],
         world = ()\<rparr>) \<le> 4"
proof -
  from summarize_long_text_single_reduction [of "head_backend 800" long_text 400 150 s0]
  obtain r s' where
    "summarize_long_text (head_backend 800) long_text 400 150 s0 = (r, s')"
    "length (new_calls s0 s') \<le>
       (if length (split long_text) \<le> 1000 then 1 else chunk_count (length (split long_text)) + 1)"
    by blast
  then have "length (new_calls s0
        \<lparr>calls = [chunk_call full_chunk, chunk_call full_chunk, chunk_call (str ''w''),
                  \<lparr>call_text = long_text, call_max_length = 400, call_min_length = 150\<rparr>],
         world = ()\<rparr>) \<le> 4"
    by (auto simp: run_long_text_800 split_long_text chunk_count_1601)
  then show ?thesis
    using run_long_text_800 by (simp add: split_long_text)
qed

section \<open>Properties of create\_summary\<close>

lemma sqlite_integer_sint: "sqlite_integer (sint (x :: 64 word))"
  using sint_ge [of x] sint_lt [of x] by (simp add: sqlite_integer_def)

lemma first_document_found:
  assumes "find (\<lambda>d. sint (doc_id d) = document_id) (documents db) = Some document"
  shows "first_document db document_id = Inr (Some document)"
proof -
  from assms have "sint (doc_id document) = document_id"
    by (auto simp: find_Some_iff)
  then have "sqlite_integer document_id"
    using sqlite_integer_sint [of "doc_id document"] by simp
  then show ?thesis using assms by (simp add: first_document_def)
qed

text \<open>
  The ways \<open>create_summary\<close> fails before it summarises, in the order of the code. Each
  returns the failure with the database and the state as they were: no row is added and
  no call of \<open>generate_summary\<close> is made. The query raises \<^verbatim>\<open>OverflowError\<close> for an
  id that is not a signed 64-bit integer; no document has the id (404); the first document
  with the id has another owner (403); it has the requesting owner but its extracted text
  is missing or the empty string (400).
\<close>

lemma create_summary_validation:
  "(\<not> sqlite_integer document_id \<longrightarrow>
      create_summary bart db document_id user_id mx mn s = (Inl OverflowError, db, s))
   \<and> (sqlite_integer document_id
        \<and> document_id \<notin> (\<lambda>d. sint (doc_id d)) ` set (documents db) \<longrightarrow>
      create_summary bart db document_id user_id mx mn s =
        (Inl (HTTPException 404 ''Document not found''), db, s))
   \<and> (\<forall>document.
         find (\<lambda>d. sint (doc_id d) = document_id) (documents db) = Some document
         \<and> sint (doc_owner_id document) \<noteq> user_id \<longrightarrow>
      create_summary bart db document_id user_id mx mn s =
        (Inl (HTTPException 403 ''Access denied''), db, s))
   \<and> (\<forall>document.
         find (\<lambda>d. sint (doc_id d) = document_id) (documents db) = Some document
         \<and> sint (doc_owner_id document) = user_id
         \<and> (doc_extracted_text document = None \<or> doc_extracted_text document = Some []) \<longrightarrow>
      create_summary bart db document_id user_id mx mn s =
        (Inl (HTTPException 400 ''Document has no extracted text''), db, s))"
proof (intro conjI allI impI)
  assume "\<not> sqlite_integer document_id"
  then show "create_summary bart db document_id user_id mx mn s = (Inl OverflowError, db, s)"
    by (simp add: create_summary_def first_document_def)
next
  assume "sqlite_integer document_id
        \<and> document_id \<notin> (\<lambda>d. sint (doc_id d)) ` set (documents db)"
  then have "first_document db document_id = Inr None"
    by (auto simp: first_document_def find_None_iff)
  then show "create_summary bart db document_id user_id mx mn s =
        (Inl (HTTPException 404 ''Document not found''), db, s)"
    by (simp add: create_summary_def)
next
  fix document
  assume a: "find (\<lambda>d. sint (doc_id d) = document_id) (documents db) = Some document
         \<and> sint (doc_owner_id document) \<noteq> user_id"
  then have "first_document db document_id = Inr (Some document)"
    by (simp add: first_document_found)
  then show "create_summary bart db document_id user_id mx mn s =
        (Inl (HTTPException 403 ''Access denied''), db, s)"
    using a by (simp add: create_summary_def)
next
  fix document
  assume a: "find (\<lambda>d. sint (doc_id d) = document_id) (documents db) = Some document
         \<and> sint (doc_owner_id document) = user_id
         \<and> (doc_extracted_text document = None \<or> doc_extracted_text document = Some [])"
  then have "first_document db document_id = Inr (Some document)"
    by (simp add: first_document_found)
  then show "create_summary bart db document_id user_id mx mn s =
        (Inl (HTTPException 400 ''Document has no extracted text''), db, s)"
    using a by (auto simp: create_summary_def)
qed

lemma find_db0:
  "find (\<lambda>d. sint (doc_id d) = 1) (documents db0) =
     Some \<lparr>doc_id = 1, doc_owner_id = 7, doc_extracted_text = Some (str ''one two three'')\<rparr>"
  "find (\<lambda>d. sint (doc_id d) = 2) (documents db0) =
     Some \<lparr>doc_id = 2, doc_owner_id = 7, doc_extracted_text = Some []\<rparr>"
  "find (\<lambda>d. sint (doc_id d) = 3) (documents db0) =
     Some \<lparr>doc_id = 3, doc_owner_id = 7, doc_extracted_text = None\<rparr>"
  "9 \<notin> (\<lambda>d. sint (doc_id d)) ` set (documents db0)"
  "9223372036854775808 \<notin> (\<lambda>d. sint (doc_id d)) ` set (documents db0)"
  by (simp_all add: db0_def)

text \<open>
  On the example database: an unknown id, a foreign owner, an empty text and a missing
  text. The database and the call log stay as they were.
\<close>

lemma create_summary_validation_examples:
  "create_summary (head_backend 1) db0 9 7 400 150 s0 =
     (Inl (HTTPException 404 ''Document not found''), db0, s0)
   \<and> create_summary (head_backend 1) db0 1 8 400 150 s0 =
     (Inl (HTTPException 403 ''Access denied''), db0, s0)
   \<and> create_summary (head_backend 1) db0 2 7 400 150 s0 =
     (Inl (HTTPException 400 ''Document has no extracted text''), db0, s0)
   \<and> create_summary (head_backend 1) db0 3 7 400 150 s0 =
     (Inl (HTTPException 400 ''Document has no extracted text''), db0, s0)"
proof -
  have "sqlite_integer 9" by (simp add: sqlite_integer_def)
  then have "create_summary (head_backend 1) db0 9 7 400 150 s0 =
     (Inl (HTTPException 404 ''Document not found''), db0, s0)"
    using create_summary_validation [of 9 "head_backend 1" db0 7 400 150 s0] find_db0(4)
    by blast
  moreover have "create_summary (head_backend 1) db0 1 8 400 150 s0 =
     (Inl (HTTPException 403 ''Access denied''), db0, s0)"
    using create_summary_validation [of 1 "head_backend 1" db0 8 400 150 s0] find_db0(1)
    by simp
  moreover have "create_summary (head_backend 1) db0 2 7 400 150 s0 =
     (Inl (HTTPException 400 ''Document has no extracted text''), db0, s0)"
    using create_summary_validation [of 2 "head_backend 1" db0 7 400 150 s0] find_db0(2)
    by simp
  moreover have "create_summary (head_backend 1) db0 3 7 400 150 s0 =
     (Inl (HTTPException 400 ''Document has no extracted text''), db0, s0)"
    using create_summary_validation [of 3 "head_backend 1" db0 7 400 150 s0] find_db0(3)
    by simp
  ultimately show ?thesis by blast
qed


lemma split_one_two_three:
  "split (str ''one two three'') = [str ''one'', str ''two'', str ''three'']"
  by (simp add: split_def str_def isspace_def)

lemma run_one_two_three:
  "generate_summary (head_backend 1) (str ''one two three'') mx mn s0 =
     (Inr \<lparr>summary_text = str ''one'', generation_time = 5 / 4, original_length = 3,
           summary_length = 1, compression_ratio = nearest_double (333 / 1000)\<rparr>,
      \<lparr>calls = [\<lparr>call_text = str ''one two three'', call_max_length = mx,
                  call_min_length = mn\<rparr>],
       world = ()\<rparr>)"
  by (simp add: generate_summary_head_backend split_one_two_three py_round_1_3 s0_def)

text \<open>A request that passes the validation: one call is made and one row is added.\<close>

lemma create_summary_example:
  "create_summary (head_backend 1) db0 1 7 400 150 s0 =
     (Inr \<lparr>row_document_id = 1, row_owner_id = 7, row_summary_text = str ''one'',
           row_word_count = 1, row_compression_ratio = nearest_double (333 / 1000),
           row_generation_time = 5 / 4, row_max_length = 400, row_min_length = 150\<rparr>,
      db0\<lparr>summaries :=
            [\<lparr>row_document_id = 1, row_owner_id = 7, row_summary_text = str ''one'',
              row_word_count = 1, row_compression_ratio = nearest_double (333 / 1000),
              row_generation_time = 5 / 4, row_max_length = 400, row_min_length = 150\<rparr>]\<rparr>,
      \<lparr>calls = [\<lparr>call_text = str ''one two three'', call_max_length = 400,
                  call_min_length = 150\<rparr>],
       world = ()\<rparr>)"
proof -
  have "str ''one two three'' \<noteq> []" by (simp add: str_def)
  moreover have "summaries db0 = []" by (simp add: db0_def)
  ultimately show ?thesis
    by (simp add: create_summary_def first_document_found [OF find_db0(1)] add_summary_def
        sqlite_integer_def summarize_long_text_def split_one_two_three run_one_two_three
        Let_def del: One_nat_def)
qed

section \<open>The compression ratio\<close>

text \<open>
  C7, as the code has it. \<open>generate_summary\<close> raises only what the runtime raised: the
  word counts and the division (made only for a positive input word count) raise nothing.
  In a result, the two lengths are the word counts of the input text and of the summary.
  The compression ratio is \<^verbatim>\<open>round(summary_words / original_words, 3)\<close>: the
  quotient, a double, rounded to three decimals, which is the double nearest to \<open>k / 1000\<close>
  for the integer \<open>k\<close> nearest to 1000 times the quotient; for an input without words it
  is 0. It is never negative.
\<close>

theorem compression_ratio_rounded:
  "(\<forall>e. fst (generate_summary bart t mx mn s) = Inl e \<longrightarrow>
        fst (bart (world s) \<lparr>call_text = t, call_max_length = mx, call_min_length = mn\<rparr>) = Inl e)
   \<and> (\<forall>res. fst (generate_summary bart t mx mn s) = Inr res \<longrightarrow>
        original_length res = length (split t)
        \<and> summary_length res = length (split (summary_text res))
        \<and> compression_ratio res =
            py_round (if original_length res = 0 then 0
                      else nearest_double
                             (of_nat (summary_length res) / of_nat (original_length res))) 3
        \<and> (original_length res = 0 \<longrightarrow> compression_ratio res = 0)
        \<and> 0 \<le> compression_ratio res
        \<and> (0 < original_length res \<longrightarrow>
             (\<exists>k. 0 \<le> k
                \<and> \<bar>of_int k - 1000 * nearest_double
                      (of_nat (summary_length res) / of_nat (original_length res))\<bar> \<le> 1 / 2
                \<and> compression_ratio res = nearest_double (of_int k / 1000))))"
proof -
  let ?c = "\<lparr>call_text = t, call_max_length = mx, call_min_length = mn\<rparr>"
  obtain out w where b: "bart (world s) ?c = (out, w)" by (cases "bart (world s) ?c")
  show ?thesis
  proof (cases out)
    case (Inl e)
    then show ?thesis
      using generate_summary_Inl [of bart s t mx mn e w] b by simp
  next
    case (Inr p)
    obtain d el where p: "p = (d, el)" by (cases p)
    define x :: rat where
      "x = nearest_double (of_nat (length (split d)) / of_nat (length (split t)))"
    define q :: rat where "q = (if length (split t) = 0 then 0 else x)"
    define k where "k = round_half_even (x * 10 ^ 3)"
    have g: "generate_summary bart t mx mn s =
       (Inr \<lparr>summary_text = d, generation_time = py_round el 2,
             original_length = length (split t), summary_length = length (split d),
             compression_ratio = py_round q 3\<rparr>,
        \<lparr>calls = calls s @ [?c], world = w\<rparr>)"
      using generate_summary_Inr [of bart s t mx mn d el w] b Inr p by (simp add: q_def x_def)
    have x0: "0 \<le> x" unfolding x_def by (rule nearest_double_nonneg) simp
    then have q0: "0 \<le> q" by (simp add: q_def)
    have nonneg: "0 \<le> py_round q 3" using q0 by (rule py_round_nonneg)
    have zero: "py_round q 3 = 0" if "length (split t) = 0"
      using that by (simp add: q_def py_round_0)
    have k0: "0 \<le> k"
      unfolding k_def by (rule round_half_even_nonneg) (use x0 in simp)
    have "\<bar>of_int k - x * 10 ^ 3\<bar> \<le> 1 / 2"
      unfolding k_def by (rule round_half_even_near)
    then have near: "\<bar>of_int k - 1000 * x\<bar> \<le> 1 / 2"
      by (simp add: mult.commute)
    have val: "py_round q 3 = nearest_double (of_int k / 1000)" if "0 < length (split t)"
      using that by (simp add: q_def py_round_def k_def)
    have "\<exists>k. 0 \<le> k \<and> \<bar>of_int k - 1000 * x\<bar> \<le> 1 / 2
            \<and> py_round q 3 = nearest_double (of_int k / 1000)"
      if "0 < length (split t)"
      using k0 near val [OF that] by blast
    then show ?thesis
      unfolding g using nonneg zero by (auto simp: q_def x_def)
  qed
qed

text \<open>
  Three words in, one word out: the result holds \<^verbatim>\<open>0.333\<close>, which is neither the
  double \<^verbatim>\<open>1 / 3\<close> nor a third.
\<close>

theorem compression_ratio_counterexample:
  "generate_summary (head_backend 1) (str ''one two three'') 400 150 s0 =
     (Inr \<lparr>summary_text = str ''one'', generation_time = 5 / 4, original_length = 3,
           summary_length = 1, compression_ratio = nearest_double (333 / 1000)\<rparr>,
      \<lparr>calls = [\<lparr>call_text = str ''one two three'', call_max_length = 400,
                  call_min_length = 150\<rparr>],
       world = ()\<rparr>)
   \<and> nearest_double (333 / 1000) \<noteq> nearest_double (rat_of_nat 1 / rat_of_nat 3)
   \<and> nearest_double (333 / 1000) \<noteq> rat_of_nat 1 / rat_of_nat 3"
proof -
  have "nearest_double (333 / 1000) \<noteq> nearest_double (1 / 3)"
    unfolding nearest_double_333_1000 nearest_double_1_3 by simp
  moreover have "nearest_double (333 / 1000) \<noteq> 1 / 3"
    unfolding nearest_double_333_1000 by simp
  ultimately show ?thesis
    using run_one_two_three [of 400 150] by simp
qed

theorem compression_ratio_rounded_witness:
  "fst (generate_summary (head_backend 1) (str ''one two three'') 400 150 s0) =
     Inr \<lparr>summary_text = str ''one'', generation_time = 5 / 4, original_length = 3,
          summary_length = 1, compression_ratio = nearest_double (333 / 1000)\<rparr>
   \<and> py_round (nearest_double (1 / 3)) 3 = nearest_double (333 / 1000)
   \<and> (\<exists>k. 0 \<le> k \<and> \<bar>of_int k - 1000 * nearest_double (1 / 3)\<bar> \<le> 1 / 2
          \<and> nearest_double (333 / 1000) = nearest_double (of_int k / 1000))"
proof -
  let ?res = "\<lparr>summary_text = str ''one'', generation_time = 5 / 4, original_length = 3,
          summary_length = 1, compression_ratio = nearest_double (333 / 1000)\<rparr>"
  have r: "fst (generate_summary (head_backend 1) (str ''one two three'') 400 150 s0) = Inr ?res"
    by (simp only: run_one_two_three fst_conv)
  from compression_ratio_rounded [of "head_backend 1" "str ''one two three''" 400 150 s0] r
  have "compression_ratio ?res =
            py_round (if original_length ?res = 0 then 0
                      else nearest_double
                             (of_nat (summary_length ?res) / of_nat (original_length ?res))) 3"
    and "0 < original_length ?res \<longrightarrow>
             (\<exists>k. 0 \<le> k
                \<and> \<bar>of_int k - 1000 * nearest_double
                      (of_nat (summary_length ?res) / of_nat (original_length ?res))\<bar> \<le> 1 / 2
                \<and> compression_ratio ?res = nearest_double (of_int k / 1000))"
    by blast+
  then have "py_round (nearest_double (1 / 3)) 3 = nearest_double (333 / 1000)"
    and "\<exists>k. 0 \<le> k \<and> \<bar>of_int k - 1000 * nearest_double (1 / 3)\<bar> \<le> 1 / 2
          \<and> nearest_double (333 / 1000) = nearest_double (of_int k / 1000)"
    by simp_all
  with r show ?thesis by blast
qed

section \<open>Requests the service does not reject\<close>

lemma generate_summary_raises:
  assumes "fst (generate_summary bart t mx mn s) = Inl e"
  shows "fst (bart (world s) \<lparr>call_text = t, call_max_length = mx, call_min_length = mn\<rparr>) = Inl e"
proof -
  let ?c = "\<lparr>call_text = t, call_max_length = mx, call_min_length = mn\<rparr>"
  obtain out w where b: "bart (world s) ?c = (out, w)" by (cases "bart (world s) ?c")
  show ?thesis
  proof (cases out)
    case (Inl e')
    then show ?thesis
      using generate_summary_Inl [of bart s t mx mn e' w] b assms by simp
  next
    case (Inr p)
    obtain d el where "p = (d, el)" by (cases p)
    then show ?thesis
      using generate_summary_Inr [of bart s t mx mn d el w] b Inr assms by simp
  qed
qed

text \<open>
  C5: the empty text is not rejected by \<open>summarize_long_text\<close>. It is handed to the
  runtime in one call, and the runtime's answer is returned.
\<close>

theorem empty_text_counterexample:
  "summarize_long_text (head_backend 1) (str '''') 100 10 s0 =
     (Inr \<lparr>summary_text = str '''', generation_time = 5 / 4, original_length = 0,
           summary_length = 0, compression_ratio = 0\<rparr>,
      \<lparr>calls = [\<lparr>call_text = str '''', call_max_length = 100, call_min_length = 10\<rparr>],
       world = ()\<rparr>)"
proof -
  have "split [] = []" by (simp add: split_def)
  then show ?thesis
    by (simp add: str_def summarize_long_text_def generate_summary_head_backend py_round_0 s0_def)
qed

text \<open>
  C5, as the code has it. The check for a missing text is in \<open>create_summary\<close>: a document
  of the requesting user whose extracted text is absent or the empty string is refused
  with status 400, before any call and with the database unchanged.
  \<open>summarize_long_text\<close> has no check of its own: a text that is empty or only
  whitespace goes to the runtime in one call, and the only failure is one the runtime
  raises.
\<close>

theorem empty_text_handling:
  "(\<forall>document.
       find (\<lambda>d. sint (doc_id d) = document_id) (documents db) = Some document
       \<and> sint (doc_owner_id document) = user_id
       \<and> (doc_extracted_text document = None \<or> doc_extracted_text document = Some []) \<longrightarrow>
       create_summary bart db document_id user_id mx mn s =
         (Inl (HTTPException 400 ''Document has no extracted text''), db, s))
   \<and> (list_all isspace t \<longrightarrow>
        new_calls s (snd (summarize_long_text bart t mx mn s)) =
          [\<lparr>call_text = t, call_max_length = mx, call_min_length = mn\<rparr>]
        \<and> (\<forall>e. fst (summarize_long_text bart t mx mn s) = Inl e \<longrightarrow>
               fst (bart (world s) \<lparr>call_text = t, call_max_length = mx, call_min_length = mn\<rparr>)
                 = Inl e))"
proof (intro conjI allI impI)
  fix document
  assume a: "find (\<lambda>d. sint (doc_id d) = document_id) (documents db) = Some document
       \<and> sint (doc_owner_id document) = user_id
       \<and> (doc_extracted_text document = None \<or> doc_extracted_text document = Some [])"
  then have "first_document db document_id = Inr (Some document)"
    by (simp add: first_document_found)
  then show "create_summary bart db document_id user_id mx mn s =
         (Inl (HTTPException 400 ''Document has no extracted text''), db, s)"
    using a by (auto simp: create_summary_def)
next
  assume "list_all isspace t"
  then have "length (split t) \<le> 1000" by (simp add: split_Nil_iff [symmetric])
  then have d: "summarize_long_text bart t mx mn s = generate_summary bart t mx mn s"
    by (rule summarize_long_text_short)
  show "new_calls s (snd (summarize_long_text bart t mx mn s)) =
          [\<lparr>call_text = t, call_max_length = mx, call_min_length = mn\<rparr>]"
    unfolding d by (rule new_calls_append) (rule generate_summary_calls)
  fix e
  assume "fst (summarize_long_text bart t mx mn s) = Inl e"
  then show "fst (bart (world s) \<lparr>call_text = t, call_max_length = mx, call_min_length = mn\<rparr>)
                 = Inl e"
    unfolding d by (rule generate_summary_raises)
qed

theorem empty_text_handling_witness:
  "create_summary (head_backend 1) db0 2 7 400 150 s0 =
     (Inl (HTTPException 400 ''Document has no extracted text''), db0, s0)
   \<and> new_calls s0 (snd (summarize_long_text (head_backend 1) [32, 9, 10] 100 10 s0)) =
       [\<lparr>call_text = [32, 9, 10], call_max_length = 100, call_min_length = 10\<rparr>]"
proof -
  have sp: "list_all isspace [32, 9, 10]" by (simp add: isspace_def)
  note h = empty_text_handling [of 2 db0 7 "head_backend 1" 400 150 s0 "[32, 9, 10]"]
  have "create_summary (head_backend 1) db0 2 7 400 150 s0 =
     (Inl (HTTPException 400 ''Document has no extracted text''), db0, s0)"
    using h find_db0(2) by simp
  moreover have "new_calls s0 (snd (summarize_long_text (head_backend 1) [32, 9, 10] 100 10 s0)) =
       [\<lparr>call_text = [32, 9, 10], call_max_length = 100, call_min_length = 10\<rparr>]"
    using empty_text_handling [of 2 db0 7 "head_backend 1" 100 10 s0 "[32, 9, 10]"] sp by blast
  ultimately show ?thesis by blast
qed

lemma summarize_one_two_three:
  "summarize_long_text (head_backend 1) (str ''one two three'') mx mn s0 =
     (Inr \<lparr>summary_text = str ''one'', generation_time = 5 / 4, original_length = 3,
           summary_length = 1, compression_ratio = nearest_double (333 / 1000)\<rparr>,
      \<lparr>calls = [\<lparr>call_text = str ''one two three'', call_max_length = mx,
                  call_min_length = mn\<rparr>],
       world = ()\<rparr>)"
  by (simp add: summarize_long_text_def split_one_two_three run_one_two_three del: One_nat_def)

text \<open>
  C6: a request with \<open>min_length\<close> above \<open>max_length\<close> is not rejected by
  \<open>summarize_long_text\<close>. The runtime is called with \<open>max_length = 50\<close> and
  \<open>min_length = 100\<close>, and its answer is returned.
\<close>

theorem length_bounds_counterexample:
  "summarize_long_text (head_backend 1) (str ''one two three'') 50 100 s0 =
     (Inr \<lparr>summary_text = str ''one'', generation_time = 5 / 4, original_length = 3,
           summary_length = 1, compression_ratio = nearest_double (333 / 1000)\<rparr>,
      \<lparr>calls = [\<lparr>call_text = str ''one two three'', call_max_length = 50,
                  call_min_length = 100\<rparr>],
       world = ()\<rparr>)
   \<and> (100::int) \<ge> 50"
  using summarize_one_two_three [of 50 100] by simp

text \<open>
  C6, as the code has it. \<open>summarize_long_text\<close> does not look at the two bounds. Whatever
  they are, it calls the runtime at least once; on a text of at most 1000 words that call
  carries the caller's bounds, and whenever a result is returned the last call, the one
  that produced it, carries them. The only check of the bounds is the request schema's,
  field by field: \<open>max_length\<close> from 100 to 1024 and \<open>min_length\<close> from 50 to 400. It
  accepts \<open>max_length = 100\<close> with \<open>min_length = 400\<close>, and it refuses
  \<open>max_length = 50\<close> whatever \<open>min_length\<close> is.
\<close>

theorem length_bounds_passed_through:
  "(\<exists>r s'. summarize_long_text bart t mx mn s = (r, s')
      \<and> new_calls s s' \<noteq> []
      \<and> (length (split t) \<le> 1000 \<longrightarrow>
           new_calls s s' = [\<lparr>call_text = t, call_max_length = mx, call_min_length = mn\<rparr>])
      \<and> (\<forall>res. r = Inr res \<longrightarrow>
           call_max_length (last (calls s')) = mx \<and> call_min_length (last (calls s')) = mn))
   \<and> SummaryCreate_valid 100 400
   \<and> (\<forall>min_length. \<not> SummaryCreate_valid 50 min_length)"
proof -
  obtain r s' where run: "summarize_long_text bart t mx mn s = (r, s')"
    by (cases "summarize_long_text bart t mx mn s")
  have "new_calls s s' \<noteq> []
      \<and> (length (split t) \<le> 1000 \<longrightarrow>
           new_calls s s' = [\<lparr>call_text = t, call_max_length = mx, call_min_length = mn\<rparr>])
      \<and> (\<forall>res. r = Inr res \<longrightarrow>
           call_max_length (last (calls s')) = mx \<and> call_min_length (last (calls s')) = mn)"
  proof (cases "length (split t) \<le> 1000")
    case True
    have c: "calls (snd (generate_summary bart t mx mn s)) =
        calls s @ [\<lparr>call_text = t, call_max_length = mx, call_min_length = mn\<rparr>]"
      by (rule generate_summary_calls)
    have s': "s' = snd (generate_summary bart t mx mn s)"
      using run summarize_long_text_short [OF True, of bart mx mn s] by simp
    have "new_calls s s' = [\<lparr>call_text = t, call_max_length = mx, call_min_length = mn\<rparr>]"
      unfolding s' using c by (rule new_calls_append)
    moreover have "last (calls s') = \<lparr>call_text = t, call_max_length = mx, call_min_length = mn\<rparr>"
      unfolding s' by (simp add: c)
    ultimately show ?thesis by simp
  next
    case False
    then have long: "1000 < length (split t)" by simp
    from long run show ?thesis
    proof (cases rule: summarize_long_text_long)
      case (failed chunks k e)
      have "new_calls s s' = map chunk_call (take k chunks)"
        using failed(5) by (rule new_calls_append)
      moreover have "0 < length chunks"
        using failed(2) long by (simp add: chunk_count_def)
      ultimately have "new_calls s s' \<noteq> []"
        using failed(6) by (cases chunks; cases k) simp_all
      then show ?thesis using failed(4) False by simp
    next
      case (reduced chunks chunk_summaries s1)
      have "new_calls s s' = map chunk_call chunks @
          [\<lparr>call_text = join space chunk_summaries, call_max_length = mx, call_min_length = mn\<rparr>]"
        using reduced(6) by (rule new_calls_append)
      then show ?thesis using reduced(6) False by simp
    qed
  qed
  moreover have "SummaryCreate_valid 100 400" "\<forall>min_length. \<not> SummaryCreate_valid 50 min_length"
    by (simp_all add: SummaryCreate_valid_def)
  ultimately show ?thesis using run by blast
qed

text \<open>
  A request the schema accepts, with \<open>min_length\<close> above \<open>max_length\<close>: the runtime is
  called with these bounds.
\<close>

theorem length_bounds_passed_through_witness:
  "SummaryCreate_valid 100 400
   \<and> summarize_long_text (head_backend 1) (str ''one two three'') 100 400 s0 =
     (Inr \<lparr>summary_text = str ''one'', generation_time = 5 / 4, original_length = 3,
           summary_length = 1, compression_ratio = nearest_double (333 / 1000)\<rparr>,
      \<lparr>calls = [\<lparr>call_text = str ''one two three'', call_max_length = 100,
                  call_min_length = 400\<rparr>],
       world = ()\<rparr>)
   \<and> call_max_length (last (calls (snd
         (summarize_long_text (head_backend 1) (str ''one two three'') 100 400 s0)))) = 100
   \<and> call_min_length (last (calls (snd
         (summarize_long_text (head_backend 1) (str ''one two three'') 100 400 s0)))) = 400"
proof -
  have ev: "summarize_long_text (head_backend 1) (str ''one two three'') 100 400 s0 =
     (Inr \<lparr>summary_text = str ''one'', generation_time = 5 / 4, original_length = 3,
           summary_length = 1, compression_ratio = nearest_double (333 / 1000)\<rparr>,
      \<lparr>calls = [\<lparr>call_text = str ''one two three'', call_max_length = 100,
                  call_min_length = 400\<rparr>],
       world = ()\<rparr>)"
    by (rule summarize_one_two_three)
  from length_bounds_passed_through [of "head_backend 1" "str ''one two three''" 100 400 s0]
  obtain r s' where
    "summarize_long_text (head_backend 1) (str ''one two three'') 100 400 s0 = (r, s')"
    "\<forall>res. r = Inr res \<longrightarrow>
       call_max_length (last (calls s')) = 100 \<and> call_min_length (last (calls s')) = 400"
    and v: "SummaryCreate_valid 100 400"
    by blast
  then have "call_max_length (last (calls (snd
         (summarize_long_text (head_backend 1) (str ''one two three'') 100 400 s0)))) = 100
   \<and> call_min_length (last (calls (snd
         (summarize_long_text (head_backend 1) (str ''one two three'') 100 400 s0)))) = 400"
    using ev by auto
  with ev v show ?thesis by blast
qed

end
